theory Spec2Isabelle
  imports Complex_Main "HOL-Library.Monad_Syntax"
begin

section \<open>Data model of \<^verbatim>\<open>hmm.cc\<close>\<close>

text \<open>
  A \<^verbatim>\<open>size_t\<close> is a natural number below \<open>2 ^ 64\<close>; where the source can wrap
  around, the reduction modulo \<open>2 ^ 64\<close> is written out.  A \<^verbatim>\<open>double\<close> is an element
  of an arbitrary carrier \<open>'a\<close>: the definitions use only \<open>0\<close>, \<open>1\<close>, \<open>- 1\<close>, the product
  and the comparison \<open>>\<close>.  The theorems about the decoder take the carrier to be
  linearly ordered and assume no law of the product: it may round, underflow to \<open>0\<close>
  and fail to be associative, as the product of doubles does.  Where a theorem needs
  more, it says so: \<open>unit_interval_closed\<close> (the product of two numbers between \<open>0\<close>
  and \<open>1\<close> lies between \<open>0\<close> and \<open>1\<close>), or \<open>1 * x = x\<close>.  A linear order has no NaN;
  doubles yield one only from an overflow (\<open>inf * 0\<close>), which tables with entries
  between \<open>0\<close> and \<open>1\<close> cannot produce.  A \<^verbatim>\<open>vector\<close> is a list; reading or writing
  \<^verbatim>\<open>v[i]\<close> beyond its size is undefined behaviour, which the model makes a value:
  \<open>None\<close> in the decoder (which throws nothing), \<open>Inl undefined_behaviour\<close> in the
  readers (which also throw).
\<close>

datatype error =
    domain_error string   \<comment> \<open>\<^verbatim>\<open>std::domain_error(msg)\<close>\<close>
  | out_of_range          \<comment> \<open>\<^verbatim>\<open>std::out_of_range\<close>, thrown by \<^verbatim>\<open>map::at\<close>\<close>
  | undefined_behaviour   \<comment> \<open>no exception: the program has no defined meaning\<close>

record 'a Model =
  stateNameToIndex :: "string \<rightharpoonup> nat"
  alphabetSize :: nat
  transitionProb :: "'a list list"
  stateSymbolProb :: "'a list list"

record ExperimentData =
  timeStateSymbol :: "(nat \<times> nat \<times> nat) list"   \<comment> \<open>(stepNumber, stateInd, symbolInd)\<close>

definition HMM_BEGIN_STATE_PROBABILITY :: "'a::one" where
  "HMM_BEGIN_STATE_PROBABILITY = 1"

definition HMM_UNDEFINED_STATE :: nat where
  "HMM_UNDEFINED_STATE = 2 ^ 64 - 1"   \<comment> \<open>\<^verbatim>\<open>const size_t HMM_UNDEFINED_STATE = -1\<close>\<close>

subsection \<open>Vector accesses\<close>

definition at_vec :: "'a list \<Rightarrow> nat \<Rightarrow> 'a option" where
  "at_vec v i = (if i < length v then Some (v ! i) else None)"

definition at2 :: "'a list list \<Rightarrow> nat \<Rightarrow> nat \<Rightarrow> 'a option" where
  "at2 m i j = do { row \<leftarrow> at_vec m i; at_vec row j }"

definition set2 :: "'a list list \<Rightarrow> nat \<Rightarrow> nat \<Rightarrow> 'a \<Rightarrow> 'a list list option" where
  "set2 m i j x =
     do { row \<leftarrow> at_vec m i;
          if j < length row then Some (m[i := row[j := x]]) else None }"

subsection \<open>Symbols\<close>

text \<open>
  \<^verbatim>\<open>char symbolToInd(const string& symbol) { return symbol[0] - 'a'; }\<close>
  The difference is computed in \<^verbatim>\<open>int\<close> and narrowed to \<^verbatim>\<open>char\<close>, taken to be signed
  and eight bits wide; \<^verbatim>\<open>symbol[0]\<close> of an empty string is the terminating zero.
  The callers store the result in a \<^verbatim>\<open>size_t\<close>, which \<open>char_to_size_t\<close> does.
\<close>

definition to_signed_char :: "int \<Rightarrow> int" where
  "to_signed_char k = (k + 128) mod 256 - 128"

definition symbolToInd :: "string \<Rightarrow> int" where
  "symbolToInd symbol =
     to_signed_char
       (to_signed_char (case symbol of [] \<Rightarrow> 0 | c # _ \<Rightarrow> of_char c)
        - to_signed_char (of_char CHR ''a''))"

definition char_to_size_t :: "int \<Rightarrow> nat" where
  "char_to_size_t k = nat (k mod 2 ^ 64)"

section \<open>Model::ReadModel\<close>

text \<open>
  The stream is modelled by what a well-formed one holds: the state names (the count
  \<^verbatim>\<open>nstates\<close> is their number), the alphabet size, the transition triples and the
  emission triples (their counts are the lengths of the lists).
\<close>

record 'a ModelSource =
  src_stateNames :: "string list"
  src_alphabetSize :: nat
  src_transitions :: "(string \<times> string \<times> 'a) list"
  src_emissions :: "(string \<times> string \<times> 'a) list"

text \<open>\<^verbatim>\<open>stateNameToIndex[name]\<close>: \<^verbatim>\<open>map::operator[]\<close> inserts a missing key with the
  value-initialised index \<open>0\<close> and returns it.\<close>

definition index_or_insert :: "(string \<rightharpoonup> nat) \<Rightarrow> string \<Rightarrow> nat \<times> (string \<rightharpoonup> nat)" where
  "index_or_insert reg name =
     (case reg name of Some i \<Rightarrow> (i, reg) | None \<Rightarrow> (0, reg(name \<mapsto> 0)))"

text \<open>\<^verbatim>\<open>for (i = 0; i < nstates; ++i) { modelSource >> stateName; stateNameToIndex[stateName] = i; }\<close>\<close>

fun ReadStates :: "nat \<Rightarrow> string list \<Rightarrow> (string \<rightharpoonup> nat) \<Rightarrow> (string \<rightharpoonup> nat)" where
  "ReadStates i [] reg = reg"
| "ReadStates i (stateName # rest) reg = ReadStates (Suc i) rest (reg(stateName \<mapsto> i))"

fun ReadTransitions ::
  "nat \<Rightarrow> (string \<times> string \<times> 'a) list \<Rightarrow> 'a Model \<Rightarrow> error + 'a Model" where
  "ReadTransitions nstates [] m = Inr m"
| "ReadTransitions nstates ((stateName, targetStateName, prob) # rest) m =
     (let (fromInd, reg1) = index_or_insert (stateNameToIndex m) stateName;
          (toInd, reg2) = index_or_insert reg1 targetStateName;
          m1 = m\<lparr>stateNameToIndex := reg2\<rparr>
      in if (fromInd + 1) mod 2 ^ 64 = nstates then
           Inl (domain_error ''Transition from the ending state is forbidden'')
         else if toInd = 0 then
           Inl (domain_error ''Transition to the starting state is forbidden'')
         else
           (case set2 (transitionProb m1) fromInd toInd prob of
              None \<Rightarrow> Inl undefined_behaviour
            | Some tp \<Rightarrow> ReadTransitions nstates rest (m1\<lparr>transitionProb := tp\<rparr>)))"

fun ReadEmissions ::
  "nat \<Rightarrow> (string \<times> string \<times> 'a) list \<Rightarrow> 'a Model \<Rightarrow> error + 'a Model" where
  "ReadEmissions nstates [] m = Inr m"
| "ReadEmissions nstates ((stateName, symbol, prob) # rest) m =
     (let (stateInd, reg1) = index_or_insert (stateNameToIndex m) stateName;
          symbolInd = char_to_size_t (symbolToInd symbol);
          m1 = m\<lparr>stateNameToIndex := reg1\<rparr>
      in if stateInd = 0 \<or> (stateInd + 1) mod 2 ^ 64 = nstates then
           Inl (domain_error
             ''Symbol emission from the beginning or the ending states is forbidden'')
         else
           (case set2 (stateSymbolProb m1) stateInd symbolInd prob of
              None \<Rightarrow> Inl undefined_behaviour
            | Some sp \<Rightarrow> ReadEmissions nstates rest (m1\<lparr>stateSymbolProb := sp\<rparr>)))"

text \<open>The member function changes the object it is called on, here \<open>this\<close>; it does
  not clear the registry first.\<close>

definition ReadModel :: "'a::zero Model \<Rightarrow> 'a ModelSource \<Rightarrow> error + 'a Model" where
  "ReadModel this modelSource =
     (let nstates = length (src_stateNames modelSource);
          m1 = this\<lparr>stateNameToIndex :=
                   ReadStates 0 (src_stateNames modelSource) (stateNameToIndex this)\<rparr>;
          m2 = m1\<lparr>alphabetSize := src_alphabetSize modelSource\<rparr>;
          m3 = m2\<lparr>transitionProb := replicate nstates (replicate nstates 0)\<rparr>
      in case ReadTransitions nstates (src_transitions modelSource) m3 of
           Inl e \<Rightarrow> Inl e
         | Inr m4 \<Rightarrow>
             ReadEmissions nstates (src_emissions modelSource)
               (m4\<lparr>stateSymbolProb := replicate nstates (replicate (alphabetSize m4) 0)\<rparr>))"

section \<open>ExperimentData::ReadExperimentData\<close>

text \<open>The stream holds the triples \<^verbatim>\<open>stepNumber stateName symbol\<close>; \<^verbatim>\<open>map::at\<close> throws
  \<^verbatim>\<open>std::out_of_range\<close> for a missing key.\<close>

fun ReadExperimentData ::
  "'a Model \<Rightarrow> (nat \<times> string \<times> string) list \<Rightarrow> ExperimentData \<Rightarrow> error + ExperimentData" where
  "ReadExperimentData model [] this = Inr this"
| "ReadExperimentData model ((stepNumber, stateName, symbol) # rest) this =
     (case stateNameToIndex model stateName of
        None \<Rightarrow> Inl out_of_range
      | Some stateInd \<Rightarrow>
          (let symbolInd = char_to_size_t (symbolToInd symbol)
           in ReadExperimentData model rest
                (this\<lparr>timeStateSymbol :=
                   timeStateSymbol this @ [(stepNumber, stateInd, symbolInd)]\<rparr>)))"

section \<open>The Viterbi decoder\<close>

definition CalcNewStateProbability ::
  "nat \<Rightarrow> nat \<Rightarrow> nat \<Rightarrow> nat \<Rightarrow> 'a::{zero,one,times} Model \<Rightarrow> 'a list list \<Rightarrow> 'a option" where
  "CalcNewStateProbability stepNumber prevState curState curSymbol model sequenceProbability =
     do { prevProbability \<leftarrow>
            (if stepNumber = 0 \<and> prevState = 0 then Some 1
             else if stepNumber = 0 \<and> prevState \<noteq> 0 then Some 0
             else at2 sequenceProbability (stepNumber - 1) prevState);
          t \<leftarrow> at2 (transitionProb model) prevState curState;
          e \<leftarrow> at2 (stateSymbolProb model) curState curSymbol;
          Some (prevProbability * t * e) }"

text \<open>The scan of \<^verbatim>\<open>FindBestTransitionSource\<close> over \<^verbatim>\<open>prevState = 0 .. nstates - 1\<close>,
  carrying \<^verbatim>\<open>(bestProbValue, bestPrevState)\<close>.\<close>

fun FindBestLoop ::
  "nat \<Rightarrow> nat \<Rightarrow> nat \<Rightarrow> 'a::{zero,one,times,ord} Model \<Rightarrow> 'a list list \<Rightarrow> nat list \<Rightarrow>
   'a \<times> nat \<Rightarrow> ('a \<times> nat) option" where
  "FindBestLoop stepNumber curState curSymbol model sequenceProbability [] best = Some best"
| "FindBestLoop stepNumber curState curSymbol model sequenceProbability (prevState # rest)
     (bestProbValue, bestPrevState) =
     do { curProb \<leftarrow> CalcNewStateProbability stepNumber prevState curState curSymbol
                       model sequenceProbability;
          FindBestLoop stepNumber curState curSymbol model sequenceProbability rest
            (if curProb > bestProbValue then (curProb, prevState)
             else (bestProbValue, bestPrevState)) }"

definition FindBestTransitionSource ::
  "nat \<Rightarrow> nat \<Rightarrow> nat \<Rightarrow> 'a::{zero,one,times,ord,uminus} Model \<Rightarrow> 'a list list \<Rightarrow> nat option" where
  "FindBestTransitionSource stepNumber curState curSymbol model sequenceProbability =
     (if stepNumber = 0 then Some 0
      else
        let nstates = length (transitionProb model)
        in do { (bestProbValue, bestPrevState) \<leftarrow>
                  FindBestLoop stepNumber curState curSymbol model sequenceProbability
                    [0..<nstates] (- 1, HMM_UNDEFINED_STATE);
                Some bestPrevState })"

text \<open>The inner loop of the dynamic programme, over \<^verbatim>\<open>curState\<close>, and the outer one,
  over \<^verbatim>\<open>t\<close>; the state is the pair of tables
  \<^verbatim>\<open>(sequenceProbability, prevSeqState)\<close>.\<close>

fun ViterbiStates ::
  "'a::{zero,one,times,ord,uminus} Model \<Rightarrow> ExperimentData \<Rightarrow> nat \<Rightarrow> nat list \<Rightarrow>
   'a list list \<times> nat list list \<Rightarrow> ('a list list \<times> nat list list) option" where
  "ViterbiStates model data t [] tables = Some tables"
| "ViterbiStates model data t (curState # rest) (sequenceProbability, prevSeqState) =
     do { tss \<leftarrow> at_vec (timeStateSymbol data) t;
          let curSymbol = snd (snd tss);
          bestPrevState \<leftarrow>
            FindBestTransitionSource t curState curSymbol model sequenceProbability;
          bestProbValue \<leftarrow>
            CalcNewStateProbability t bestPrevState curState curSymbol model
              sequenceProbability;
          sequenceProbability' \<leftarrow> set2 sequenceProbability t curState bestProbValue;
          prevSeqState' \<leftarrow> set2 prevSeqState t curState bestPrevState;
          ViterbiStates model data t rest (sequenceProbability', prevSeqState') }"

fun ViterbiSteps ::
  "'a::{zero,one,times,ord,uminus} Model \<Rightarrow> ExperimentData \<Rightarrow> nat \<Rightarrow> nat list \<Rightarrow>
   'a list list \<times> nat list list \<Rightarrow> ('a list list \<times> nat list list) option" where
  "ViterbiSteps model data nstates [] tables = Some tables"
| "ViterbiSteps model data nstates (t # rest) tables =
     do { tables' \<leftarrow> ViterbiStates model data t [0..<nstates] tables;
          ViterbiSteps model data nstates rest tables' }"

text \<open>The first two parts of \<^verbatim>\<open>FindMostProbableStateSequence\<close>: the tables are
  allocated and filled.\<close>

definition ViterbiTables ::
  "'a::{zero,one,times,ord,uminus} Model \<Rightarrow> ExperimentData \<Rightarrow>
   ('a list list \<times> nat list list) option" where
  "ViterbiTables model data =
     (let nstates = length (transitionProb model);
          maxtime = length (timeStateSymbol data);
          sequenceProbability = replicate maxtime (replicate nstates 0);
          prevSeqState = replicate maxtime (replicate nstates HMM_UNDEFINED_STATE)
      in ViterbiSteps model data nstates [0..<maxtime] (sequenceProbability, prevSeqState))"

text \<open>\<^verbatim>\<open>std::distance(begin, std::max_element(begin, end))\<close>: the position of the first
  greatest element, \<open>0\<close> for an empty range (\<^verbatim>\<open>max_element\<close> returns \<^verbatim>\<open>end\<close>, which is
  \<^verbatim>\<open>begin\<close>).  The library scans with \<^verbatim>\<open>if (*largest < *first) largest = first\<close>.\<close>

fun max_element_scan :: "'a::ord list \<Rightarrow> nat \<Rightarrow> 'a \<Rightarrow> nat \<Rightarrow> nat" where
  "max_element_scan [] i largest pos = pos"
| "max_element_scan (x # xs) i largest pos =
     (if largest < x then max_element_scan xs (Suc i) x i
      else max_element_scan xs (Suc i) largest pos)"

definition max_element_index :: "'a::ord list \<Rightarrow> nat" where
  "max_element_index v = (case v of [] \<Rightarrow> 0 | x # xs \<Rightarrow> max_element_scan xs 1 x 0)"

text \<open>\<^verbatim>\<open>for (; curStep > 0; --curStep) { curState = prevSeqState[curStep][curState];
  mostProbableSeq.push_back(curState); }\<close> over the steps \<^verbatim>\<open>maxtime - 1\<close> down to \<open>1\<close>.\<close>

fun RecoverLoop :: "nat list list \<Rightarrow> nat list \<Rightarrow> nat \<times> nat list \<Rightarrow> (nat \<times> nat list) option" where
  "RecoverLoop prevSeqState [] st = Some st"
| "RecoverLoop prevSeqState (curStep # rest) (curState, mostProbableSeq) =
     do { curState' \<leftarrow> at2 prevSeqState curStep curState;
          RecoverLoop prevSeqState rest (curState', mostProbableSeq @ [curState']) }"

definition FindMostProbableStateSequence ::
  "'a::{zero,one,times,linorder,uminus} Model \<Rightarrow> ExperimentData \<Rightarrow> nat list option" where
  "FindMostProbableStateSequence model data =
     do { (sequenceProbability, prevSeqState) \<leftarrow> ViterbiTables model data;
          let maxtime = length (timeStateSymbol data);
          let curStep = int maxtime - 1;
          lastRow \<leftarrow> (if curStep < 0 then None else at_vec sequenceProbability (nat curStep));
          let curState = max_element_index lastRow;
          (curState', mostProbableSeq) \<leftarrow>
            RecoverLoop prevSeqState (rev [1..<maxtime]) (curState, []);
          Some (rev (mostProbableSeq @ [curState'])) }"

section \<open>HMM::Algorithms::CalcForwardBackwardProbabiliies\<close>

text \<open>The body holds two \<^verbatim>\<open>TODO\<close> comments and no statement: control flows off the
  end of a function that returns a value, which is undefined behaviour.\<close>

definition CalcForwardBackwardProbabiliies ::
  "'a Model \<Rightarrow> ExperimentData \<Rightarrow> error + ('a \<times> 'a) list list" where
  "CalcForwardBackwardProbabiliies model data = Inl undefined_behaviour"

section \<open>Notions used to state the properties\<close>

text \<open>The index that \<^verbatim>\<open>stateNameToIndex[name]\<close> yields: the stored one, or \<open>0\<close> for a
  name that is not in the registry.\<close>

definition state_index :: "(string \<rightharpoonup> nat) \<Rightarrow> string \<Rightarrow> nat" where
  "state_index reg name = (case reg name of Some i \<Rightarrow> i | None \<Rightarrow> 0)"

definition registry_below :: "nat \<Rightarrow> (string \<rightharpoonup> nat) \<Rightarrow> bool" where
  "registry_below n reg \<longleftrightarrow> (\<forall>name i. reg name = Some i \<longrightarrow> i < n \<or> i = 0)"

definition matrix_dims :: "nat \<Rightarrow> nat \<Rightarrow> 'a list list \<Rightarrow> bool" where
  "matrix_dims r c m \<longleftrightarrow> length m = r \<and> (\<forall>row\<in>set m. length row = c)"

text \<open>The index of a name once the state list has been read into an empty registry.\<close>

definition declared_index :: "string list \<Rightarrow> string \<Rightarrow> nat" where
  "declared_index names = state_index (ReadStates 0 names Map.empty)"

definition bad_transition :: "(string \<Rightarrow> nat) \<Rightarrow> nat \<Rightarrow> string \<times> string \<times> 'a \<Rightarrow> bool" where
  "bad_transition idx n tr \<longleftrightarrow> idx (fst tr) + 1 = n \<or> idx (fst (snd tr)) = 0"

definition bad_emission :: "(string \<Rightarrow> nat) \<Rightarrow> nat \<Rightarrow> string \<times> string \<times> 'a \<Rightarrow> bool" where
  "bad_emission idx n em \<longleftrightarrow> idx (fst em) = 0 \<or> idx (fst em) + 1 = n"

subsection \<open>Notions for the decoder\<close>

text \<open>The candidate score of \<open>CalcNewStateProbability\<close> as a value.\<close>

definition pathProbability :: "'a::{zero,one} list list \<Rightarrow> nat \<Rightarrow> nat \<Rightarrow> 'a" where
  "pathProbability sequenceProbability t p =
     (if t = 0 then (if p = 0 then 1 else 0) else sequenceProbability ! (t - 1) ! p)"

definition candidate ::
  "'a::{zero,one,times} Model \<Rightarrow> 'a list list \<Rightarrow> nat \<Rightarrow> nat \<Rightarrow> nat \<Rightarrow> nat \<Rightarrow> 'a" where
  "candidate model sequenceProbability t curSymbol curState p =
     pathProbability sequenceProbability t p * transitionProb model ! p ! curState *
     stateSymbolProb model ! curState ! curSymbol"

text \<open>The scan as a fold over the candidate scores.\<close>

definition best_step :: "(nat \<Rightarrow> 'a::ord) \<Rightarrow> nat \<Rightarrow> 'a \<times> nat \<Rightarrow> 'a \<times> nat" where
  "best_step c p best = (if c p > fst best then (c p, p) else best)"

definition symbolAt :: "ExperimentData \<Rightarrow> nat \<Rightarrow> nat" where
  "symbolAt data t = snd (snd (timeStateSymbol data ! t))"

definition best_source ::
  "'a::{zero,one,times,linorder} Model \<Rightarrow> 'a list list \<Rightarrow> nat \<Rightarrow> nat \<Rightarrow> nat \<Rightarrow> 'a \<Rightarrow> nat \<Rightarrow> bool" where
  "best_source model sp t sy s v b \<longleftrightarrow>
     (if t = 0 then b = 0 \<and> v = candidate model sp 0 sy s 0
      else b < length (transitionProb model) \<and> v = candidate model sp t sy s b \<and>
           (\<forall>p<length (transitionProb model). candidate model sp t sy s p \<le> v) \<and>
           (\<forall>p<b. candidate model sp t sy s p < v))"

definition unit_matrix :: "'a::{zero,one,ord} list list \<Rightarrow> bool" where
  "unit_matrix m \<longleftrightarrow> (\<forall>row\<in>set m. \<forall>x\<in>set row. 0 \<le> x \<and> x \<le> 1)"

text \<open>What the proofs of definedness use of the product: \<open>- 1 < 0 \<le> 1\<close>, and the product
  of two numbers between \<open>0\<close> and \<open>1\<close> lies between \<open>0\<close> and \<open>1\<close>.  The rounded product
  of doubles has this property (rounding is monotone, \<open>0\<close> and \<open>1\<close> are doubles).\<close>

definition unit_interval_closed :: "('a::{zero,one,ord,uminus} \<Rightarrow> 'a \<Rightarrow> 'a) \<Rightarrow> bool" where
  "unit_interval_closed mul \<longleftrightarrow>
     (- 1 :: 'a) < 0 \<and> (0 :: 'a) \<le> 1 \<and>
     (\<forall>x y. 0 \<le> x \<and> x \<le> 1 \<and> 0 \<le> y \<and> y \<le> 1 \<longrightarrow> 0 \<le> mul x y \<and> mul x y \<le> 1)"

text \<open>Tables of probabilities: a square transition table, an emission table with one
  row for each state and one column for each symbol, every entry between \<open>0\<close> and \<open>1\<close>.\<close>

definition valid_model :: "'a::{zero,one,ord} Model \<Rightarrow> bool" where
  "valid_model model \<longleftrightarrow>
     length (transitionProb model) < 2 ^ 64 \<and>
     matrix_dims (length (transitionProb model)) (length (transitionProb model))
       (transitionProb model) \<and>
     matrix_dims (length (transitionProb model)) (alphabetSize model)
       (stateSymbolProb model) \<and>
     unit_matrix (transitionProb model) \<and> unit_matrix (stateSymbolProb model)"

definition valid_data :: "'a Model \<Rightarrow> ExperimentData \<Rightarrow> bool" where
  "valid_data model data \<longleftrightarrow>
     (\<forall>tss\<in>set (timeStateSymbol data). snd (snd tss) < alphabetSize model)"

subsection \<open>Example inputs\<close>

definition fresh_model :: "real Model" where
  "fresh_model = \<lparr>stateNameToIndex = Map.empty, alphabetSize = 0,
                   transitionProb = [], stateSymbolProb = []\<rparr>"

definition end_source :: "real ModelSource" where
  "end_source = \<lparr>src_stateNames = [''START'', ''A'', ''END''], src_alphabetSize = 2,
     src_transitions = [(''START'', ''A'', 1), (''END'', ''A'', 1)],
     src_emissions = [(''A'', ''a'', 9 / 10), (''A'', ''b'', 1 / 10)]\<rparr>"

definition typo_source :: "real ModelSource" where
  "typo_source = \<lparr>src_stateNames = [''START'', ''A'', ''END''], src_alphabetSize = 2,
     src_transitions = [(''START'', ''B'', 1)],
     src_emissions = [(''A'', ''a'', 9 / 10)]\<rparr>"

definition alias_source :: "real ModelSource" where
  "alias_source = \<lparr>src_stateNames = [''START'', ''A'', ''END''], src_alphabetSize = 2,
     src_transitions = [(''BEGIN'', ''A'', 1)],
     src_emissions = [(''A'', ''a'', 9 / 10)]\<rparr>"

text \<open>A registry for the states \<open>START\<close>, \<open>A\<close>, \<open>B\<close>, \<open>END\<close> and a model over the
  alphabet \<open>a\<close>, \<open>b\<close>: \<open>START\<close> moves to \<open>A\<close>; \<open>A\<close> stays or moves to \<open>B\<close>.\<close>

definition chain_model :: "real Model" where
  "chain_model =
     \<lparr>stateNameToIndex = [''START'' \<mapsto> 0, ''A'' \<mapsto> 1, ''B'' \<mapsto> 2, ''END'' \<mapsto> 3],
      alphabetSize = 2,
      transitionProb =
        [[0, 1, 0, 0], [0, 1 / 2, 1 / 2, 0], [0, 0, 0, 0], [0, 0, 0, 0]],
      stateSymbolProb = [[0, 0], [9 / 10, 1 / 10], [1 / 5, 4 / 5], [0, 0]]\<rparr>"

definition chain_data :: ExperimentData where
  "chain_data = \<lparr>timeStateSymbol = [(0, 1, 0), (1, 2, 1)]\<rparr>"

definition no_data :: ExperimentData where
  "no_data = \<lparr>timeStateSymbol = []\<rparr>"

text \<open>A single observation, and the observations of \<open>chain_data\<close> with other step
  numbers and reference states.\<close>

definition single_data :: ExperimentData where
  "single_data = \<lparr>timeStateSymbol = [(0, 1, 0)]\<rparr>"

definition relabelled_data :: ExperimentData where
  "relabelled_data = \<lparr>timeStateSymbol = [(7, 3, 0), (7, 0, 1)]\<rparr>"



text \<open>A model source whose only emission names a state that is not in the state list.\<close>

definition typo_emission_source :: "real ModelSource" where
  "typo_emission_source = \<lparr>src_stateNames = [''START'', ''A'', ''END''], src_alphabetSize = 2,
     src_transitions = [(''START'', ''A'', 1)],
     src_emissions = [(''B'', ''a'', 9 / 10)]\<rparr>"

section \<open>The readers\<close>

subsection \<open>Registry look-ups\<close>

lemma fst_index_or_insert: "fst (index_or_insert reg name) = state_index reg name"
  by (simp add: index_or_insert_def state_index_def split: option.splits)

lemma state_index_index_or_insert:
  "state_index (snd (index_or_insert reg name)) = state_index reg"
  by (auto simp: index_or_insert_def state_index_def fun_eq_iff split: option.splits)

lemma registry_below_index_or_insert:
  "registry_below n reg \<Longrightarrow> registry_below n (snd (index_or_insert reg name))"
  by (auto simp: index_or_insert_def registry_below_def split: option.splits)

lemma state_index_below:
  "registry_below n reg \<Longrightarrow> state_index reg name \<noteq> 0 \<Longrightarrow> state_index reg name < n"
  by (auto simp: registry_below_def state_index_def split: option.splits)

lemma state_index_below':
  "registry_below n reg \<Longrightarrow> 0 < n \<Longrightarrow> state_index reg name < n"
  by (auto simp: registry_below_def state_index_def split: option.splits)

lemma set2_Some:
  "matrix_dims r c m \<Longrightarrow> i < r \<Longrightarrow> j < c \<Longrightarrow> \<exists>m'. set2 m i j x = Some m' \<and> matrix_dims r c m'"
  by (auto simp: set2_def at_vec_def matrix_dims_def dest!: set_update_subset_insert [THEN subsetD])

lemma index_or_insert_keeps:
  "reg name = Some i \<Longrightarrow> snd (index_or_insert reg x) name = Some i"
  by (auto simp: index_or_insert_def split: option.splits)

lemma index_or_insert_self:
  "snd (index_or_insert reg x) x = Some (state_index reg x)"
  by (auto simp: index_or_insert_def state_index_def split: option.splits)

subsection \<open>The transition and emission loops\<close>

lemma ReadTransitions_Cons:
  "ReadTransitions n ((f, t, p) # rest) m =
     (let reg = stateNameToIndex m;
          reg2 = snd (index_or_insert (snd (index_or_insert reg f)) t)
      in if (state_index reg f + 1) mod 2 ^ 64 = n then
           Inl (domain_error ''Transition from the ending state is forbidden'')
         else if state_index reg t = 0 then
           Inl (domain_error ''Transition to the starting state is forbidden'')
         else
           (case set2 (transitionProb m) (state_index reg f) (state_index reg t) p of
              None \<Rightarrow> Inl undefined_behaviour
            | Some tp \<Rightarrow>
                ReadTransitions n rest (m\<lparr>stateNameToIndex := reg2, transitionProb := tp\<rparr>)))"
  by (simp add: Let_def split_beta fst_index_or_insert state_index_index_or_insert)

lemma ReadEmissions_Cons:
  "ReadEmissions n ((s, c, p) # rest) m =
     (let reg = stateNameToIndex m;
          reg1 = snd (index_or_insert reg s)
      in if state_index reg s = 0 \<or> (state_index reg s + 1) mod 2 ^ 64 = n then
           Inl (domain_error
             ''Symbol emission from the beginning or the ending states is forbidden'')
         else
           (case set2 (stateSymbolProb m) (state_index reg s)
                   (char_to_size_t (symbolToInd c)) p of
              None \<Rightarrow> Inl undefined_behaviour
            | Some sp \<Rightarrow>
                ReadEmissions n rest (m\<lparr>stateNameToIndex := reg1, stateSymbolProb := sp\<rparr>)))"
  by (simp add: Let_def split_beta fst_index_or_insert)

lemma ReadTransitions_cases:
  assumes "registry_below n (stateNameToIndex m)" "matrix_dims n n (transitionProb m)" "n < 2 ^ 64"
  shows "case ReadTransitions n ts m of
           Inl e \<Rightarrow> (\<exists>msg. e = domain_error msg) \<and>
                    (\<exists>tr\<in>set ts. bad_transition (state_index (stateNameToIndex m)) n tr)
         | Inr m' \<Rightarrow> (\<forall>tr\<in>set ts. \<not> bad_transition (state_index (stateNameToIndex m)) n tr) \<and>
                    registry_below n (stateNameToIndex m') \<and>
                    state_index (stateNameToIndex m') = state_index (stateNameToIndex m) \<and>
                    alphabetSize m' = alphabetSize m"
  using assms
proof (induction ts arbitrary: m)
  case Nil
  then show ?case by simp
next
  case (Cons tr ts)
  obtain f t p where tr: "tr = (f, t, p)" by (cases tr) auto
  let ?reg = "stateNameToIndex m"
  let ?idx = "state_index ?reg"
  let ?reg1 = "snd (index_or_insert ?reg f)"
  let ?reg2 = "snd (index_or_insert ?reg1 t)"
  have fromI: "fst (index_or_insert ?reg f) = ?idx f"
    by (rule fst_index_or_insert)
  have toI: "fst (index_or_insert ?reg1 t) = ?idx t"
    by (simp add: fst_index_or_insert state_index_index_or_insert)
  have below2: "registry_below n ?reg2"
    using Cons.prems(1) by (intro registry_below_index_or_insert)
  have idx2: "state_index ?reg2 = ?idx"
    by (simp add: state_index_index_or_insert)
  show ?case
  proof (cases "bad_transition ?idx n tr")
    case True
    have lt: "?idx f < n \<Longrightarrow> (?idx f + 1) mod 2 ^ 64 = ?idx f + 1"
      using Cons.prems(3) by simp
    have "?idx f + 1 = n \<Longrightarrow> (?idx f + 1) mod 2 ^ 64 = n"
      using Cons.prems(3) by simp
    with True show ?thesis
      unfolding tr ReadTransitions_Cons
      by (auto simp: bad_transition_def Let_def)
  next
    case False
    then have nf: "?idx f + 1 \<noteq> n" and nt: "?idx t \<noteq> 0"
      by (auto simp: tr bad_transition_def)
    have tlt: "?idx t < n"
      using state_index_below [OF Cons.prems(1) nt] .
    then have flt: "?idx f < n"
      using state_index_below' [OF Cons.prems(1)] by simp
    then have nmod: "(?idx f + 1) mod 2 ^ 64 \<noteq> n"
      using nf Cons.prems(3) by simp
    obtain tp where tp: "set2 (transitionProb m) (?idx f) (?idx t) p = Some tp"
      and dims: "matrix_dims n n tp"
      using set2_Some [OF Cons.prems(2) flt tlt] by blast
    let ?m' = "m\<lparr>stateNameToIndex := ?reg2, transitionProb := tp\<rparr>"
    have step: "ReadTransitions n (tr # ts) m = ReadTransitions n ts ?m'"
      unfolding tr ReadTransitions_Cons using nmod nt tp
      by (simp add: Let_def)
    have IH: "case ReadTransitions n ts ?m' of
           Inl e \<Rightarrow> (\<exists>msg. e = domain_error msg) \<and>
                    (\<exists>tr\<in>set ts. bad_transition (state_index (stateNameToIndex ?m')) n tr)
         | Inr m' \<Rightarrow> (\<forall>tr\<in>set ts. \<not> bad_transition (state_index (stateNameToIndex ?m')) n tr) \<and>
                    registry_below n (stateNameToIndex m') \<and>
                    state_index (stateNameToIndex m') = state_index (stateNameToIndex ?m') \<and>
                    alphabetSize m' = alphabetSize ?m'"
      using below2 dims Cons.prems(3) by (intro Cons.IH) simp_all
    show ?thesis
      unfolding step using IH False idx2
      by (auto split: sum.splits)
  qed
qed

lemma ReadEmissions_cases:
  assumes "registry_below n (stateNameToIndex m)" "matrix_dims n a (stateSymbolProb m)"
    "n < 2 ^ 64" "\<forall>em\<in>set es. char_to_size_t (symbolToInd (fst (snd em))) < a"
  shows "case ReadEmissions n es m of
           Inl e \<Rightarrow> (\<exists>msg. e = domain_error msg) \<and>
                    (\<exists>em\<in>set es. bad_emission (state_index (stateNameToIndex m)) n em)
         | Inr m' \<Rightarrow> (\<forall>em\<in>set es. \<not> bad_emission (state_index (stateNameToIndex m)) n em)"
  using assms
proof (induction es arbitrary: m)
  case Nil
  then show ?case by simp
next
  case (Cons em es)
  obtain s c p where em: "em = (s, c, p)" by (cases em) auto
  let ?reg = "stateNameToIndex m"
  let ?idx = "state_index ?reg"
  let ?reg1 = "snd (index_or_insert ?reg s)"
  show ?case
  proof (cases "bad_emission ?idx n em")
    case True
    have "?idx s + 1 = n \<Longrightarrow> (?idx s + 1) mod 2 ^ 64 = n"
      using Cons.prems(3) by simp
    with True show ?thesis
      unfolding em ReadEmissions_Cons
      by (auto simp: bad_emission_def Let_def)
  next
    case False
    then have ns: "?idx s \<noteq> 0" and ne: "?idx s + 1 \<noteq> n"
      by (auto simp: em bad_emission_def)
    have slt: "?idx s < n"
      using state_index_below [OF Cons.prems(1) ns] .
    then have nmod: "(?idx s + 1) mod 2 ^ 64 \<noteq> n"
      using ne Cons.prems(3) by simp
    have clt: "char_to_size_t (symbolToInd c) < a"
      using Cons.prems(4) by (simp add: em)
    obtain sp where sp: "set2 (stateSymbolProb m) (?idx s) (char_to_size_t (symbolToInd c)) p = Some sp"
      and dims: "matrix_dims n a sp"
      using set2_Some [OF Cons.prems(2) slt clt] by blast
    let ?m' = "m\<lparr>stateNameToIndex := ?reg1, stateSymbolProb := sp\<rparr>"
    have step: "ReadEmissions n (em # es) m = ReadEmissions n es ?m'"
      unfolding em ReadEmissions_Cons using nmod ns sp
      by (simp add: Let_def)
    have idx1: "state_index (stateNameToIndex ?m') = ?idx"
      by (simp add: state_index_index_or_insert)
    have IH: "case ReadEmissions n es ?m' of
           Inl e \<Rightarrow> (\<exists>msg. e = domain_error msg) \<and>
                    (\<exists>em\<in>set es. bad_emission (state_index (stateNameToIndex ?m')) n em)
         | Inr m' \<Rightarrow> (\<forall>em\<in>set es. \<not> bad_emission (state_index (stateNameToIndex ?m')) n em)"
      using Cons.prems dims
      by (intro Cons.IH) (simp_all add: registry_below_index_or_insert)
    show ?thesis
      unfolding step using IH False unfolding idx1
      by (auto split: sum.splits)
  qed
qed

lemma ReadStates_append:
  "ReadStates i (xs @ ys) reg = ReadStates (i + length xs) ys (ReadStates i xs reg)"
  by (induction xs arbitrary: i reg) auto

lemma ReadStates_last:
  "names \<noteq> [] \<Longrightarrow> ReadStates i names reg (last names) = Some (i + length names - 1)"
proof (induction names rule: rev_induct)
  case Nil
  then show ?case by simp
next
  case (snoc x xs)
  show ?case by (simp add: ReadStates_append)
qed

lemma ReadStates_below:
  "\<forall>name k. reg name = Some k \<longrightarrow> k < i + length names \<Longrightarrow>
   ReadStates i names reg name = Some k \<Longrightarrow> k < i + length names"
proof (induction names arbitrary: i reg)
  case Nil
  then show ?case by simp
next
  case (Cons x xs)
  have "k < Suc i + length xs"
  proof (rule Cons.IH)
    show "\<forall>name k. (reg(x \<mapsto> i)) name = Some k \<longrightarrow> k < Suc i + length xs"
      using Cons.prems(1) by auto
    show "ReadStates (Suc i) xs (reg(x \<mapsto> i)) name = Some k"
      using Cons.prems(2) by simp
  qed
  then show ?case by simp
qed

lemma ReadStates_keeps_undeclared:
  "name \<notin> set names \<Longrightarrow> ReadStates i names reg name = reg name"
  by (induction names arbitrary: i reg) auto

lemma registry_below_ReadStates:
  "registry_below (length names) (ReadStates 0 names Map.empty)"
  unfolding registry_below_def
  using ReadStates_below [of Map.empty 0 names] by auto

lemma matrix_dims_replicate: "matrix_dims r c (replicate r (replicate c x))"
  by (simp add: matrix_dims_def)

lemma ReadTransitions_registry:
  "ReadTransitions n ts m = Inr m' \<Longrightarrow>
   (\<forall>name i. stateNameToIndex m name = Some i \<longrightarrow> stateNameToIndex m' name = Some i) \<and>
   (\<forall>tr\<in>set ts. stateNameToIndex m' (fst tr) = Some (state_index (stateNameToIndex m) (fst tr)))"
proof (induction ts arbitrary: m)
  case Nil
  then show ?case by simp
next
  case (Cons tr ts)
  obtain f t p where tr: "tr = (f, t, p)" by (cases tr) auto
  let ?reg = "stateNameToIndex m"
  let ?reg2 = "snd (index_or_insert (snd (index_or_insert ?reg f)) t)"
  from Cons.prems obtain tp where
    rest: "ReadTransitions n ts (m\<lparr>stateNameToIndex := ?reg2, transitionProb := tp\<rparr>) = Inr m'"
    unfolding tr ReadTransitions_Cons
    by (auto simp: Let_def split: if_splits option.splits)
  have keep: "?reg name = Some i \<Longrightarrow> ?reg2 name = Some i" for name i
    by (simp add: index_or_insert_keeps)
  have f2: "?reg2 f = Some (state_index ?reg f)"
    by (simp add: index_or_insert_keeps index_or_insert_self)
  have idx2: "state_index ?reg2 = state_index ?reg"
    by (simp add: state_index_index_or_insert)
  from Cons.IH [OF rest] keep f2 idx2 show ?case
    by (auto simp: tr)
qed

lemma ReadEmissions_registry:
  "ReadEmissions n es m = Inr m' \<Longrightarrow> stateNameToIndex m name = Some i \<Longrightarrow>
   stateNameToIndex m' name = Some i"
proof (induction es arbitrary: m)
  case Nil
  then show ?case by simp
next
  case (Cons em es)
  obtain s c p where em: "em = (s, c, p)" by (cases em) auto
  let ?reg1 = "snd (index_or_insert (stateNameToIndex m) s)"
  from Cons.prems(1) obtain sp where
    rest: "ReadEmissions n es (m\<lparr>stateNameToIndex := ?reg1, stateSymbolProb := sp\<rparr>) = Inr m'"
    unfolding em ReadEmissions_Cons
    by (auto simp: Let_def split: if_splits option.splits)
  show ?case
    by (rule Cons.IH [OF rest]) (simp add: index_or_insert_keeps Cons.prems(2))
qed

lemma ReadTransitions_not_out_of_range:
  "ReadTransitions n ts m \<noteq> Inl out_of_range"
  by (induction n ts m rule: ReadTransitions.induct)
     (auto split: option.splits prod.splits simp: Let_def)

lemma ReadEmissions_not_out_of_range:
  "ReadEmissions n es m \<noteq> Inl out_of_range"
  by (induction n es m rule: ReadEmissions.induct)
     (auto split: option.splits prod.splits simp: Let_def)

lemma ReadModel_not_out_of_range:
  "ReadModel this src \<noteq> Inl out_of_range"
  by (auto simp: ReadModel_def Let_def ReadTransitions_not_out_of_range
        ReadEmissions_not_out_of_range split: sum.splits)

subsection \<open>ReadModel\<close>

lemma ReadModel_cases:
  fixes this :: "'a::zero Model"
  assumes fresh: "stateNameToIndex this = Map.empty"
    and n: "length (src_stateNames src) < 2 ^ 64"
  shows "case ReadTransitions (length (src_stateNames src)) (src_transitions src)
          (this\<lparr>stateNameToIndex := ReadStates 0 (src_stateNames src) Map.empty,
                alphabetSize := src_alphabetSize src,
                transitionProb := replicate (length (src_stateNames src))
                                    (replicate (length (src_stateNames src)) 0)\<rparr>) of
           Inl e \<Rightarrow> ReadModel this src = Inl e \<and> (\<exists>msg. e = domain_error msg) \<and>
              (\<exists>tr\<in>set (src_transitions src).
                  bad_transition (declared_index (src_stateNames src)) (length (src_stateNames src)) tr)
         | Inr m4 \<Rightarrow>
             (\<forall>tr\<in>set (src_transitions src).
                \<not> bad_transition (declared_index (src_stateNames src)) (length (src_stateNames src)) tr) \<and>
             registry_below (length (src_stateNames src)) (stateNameToIndex m4) \<and>
             state_index (stateNameToIndex m4) = declared_index (src_stateNames src) \<and>
             alphabetSize m4 = src_alphabetSize src \<and>
             ReadModel this src =
               ReadEmissions (length (src_stateNames src)) (src_emissions src)
                 (m4\<lparr>stateSymbolProb := replicate (length (src_stateNames src))
                        (replicate (src_alphabetSize src) 0)\<rparr>)"
proof -
  let ?n = "length (src_stateNames src)"
  let ?m3 = "this\<lparr>stateNameToIndex := ReadStates 0 (src_stateNames src) Map.empty,
                alphabetSize := src_alphabetSize src,
                transitionProb := replicate ?n (replicate ?n 0)\<rparr>"
  have "case ReadTransitions ?n (src_transitions src) ?m3 of
           Inl e \<Rightarrow> (\<exists>msg. e = domain_error msg) \<and>
                    (\<exists>tr\<in>set (src_transitions src). bad_transition (state_index (stateNameToIndex ?m3)) ?n tr)
         | Inr m' \<Rightarrow> (\<forall>tr\<in>set (src_transitions src). \<not> bad_transition (state_index (stateNameToIndex ?m3)) ?n tr) \<and>
                    registry_below ?n (stateNameToIndex m') \<and>
                    state_index (stateNameToIndex m') = state_index (stateNameToIndex ?m3) \<and>
                    alphabetSize m' = alphabetSize ?m3"
    using n by (intro ReadTransitions_cases)
       (simp_all add: registry_below_ReadStates matrix_dims_replicate)
  then show ?thesis
    by (auto simp: ReadModel_def Let_def fresh declared_index_def split: sum.splits)
qed

lemma declared_index_last:
  "names \<noteq> [] \<Longrightarrow> declared_index names (last names) + 1 = length names"
  using ReadStates_last [of names 0 Map.empty]
  by (cases names) (auto simp: declared_index_def state_index_def)

lemma declared_index_undeclared:
  "name \<notin> set names \<Longrightarrow> declared_index names name = 0"
  by (simp add: declared_index_def state_index_def ReadStates_keeps_undeclared)

lemmas sym_simps = char_to_size_t_def symbolToInd_def to_signed_char_def

subsection \<open>ReadExperimentData\<close>

lemma ReadExperimentData_error_kind:
  "ReadExperimentData model src this = Inl e \<Longrightarrow> e = out_of_range"
  by (induction model src this rule: ReadExperimentData.induct)
     (auto split: option.splits simp: Let_def)

lemma ReadExperimentData_fails_iff:
  "(\<exists>e. ReadExperimentData model src this = Inl e) \<longleftrightarrow>
   (\<exists>obs\<in>set src. stateNameToIndex model (fst (snd obs)) = None)"
  by (induction model src this rule: ReadExperimentData.induct)
     (auto split: option.splits simp: Let_def)

lemma ReadExperimentData_appends:
  "ReadExperimentData model src this = Inr d \<Longrightarrow>
   timeStateSymbol d =
     timeStateSymbol this @
     map (\<lambda>(stepNumber, stateName, symbol).
            (stepNumber, the (stateNameToIndex model stateName),
             char_to_size_t (symbolToInd symbol))) src"
  by (induction model src this rule: ReadExperimentData.induct)
     (auto split: option.splits simp: Let_def)

section \<open>The decoder\<close>

lemma at_vec_Some_iff: "at_vec v i = Some x \<longleftrightarrow> i < length v \<and> x = v ! i"
  by (auto simp: at_vec_def)

lemma at_vec_None_iff: "at_vec v i = None \<longleftrightarrow> length v \<le> i"
  by (auto simp: at_vec_def)

lemma at2_Some_iff:
  "at2 m i j = Some x \<longleftrightarrow> i < length m \<and> j < length (m ! i) \<and> x = m ! i ! j"
  by (auto simp: at2_def at_vec_def split: bind_splits)

lemma set2_Some_iff:
  "set2 m i j x = Some m' \<longleftrightarrow>
   i < length m \<and> j < length (m ! i) \<and> m' = m[i := (m ! i)[j := x]]"
  by (auto simp: set2_def at_vec_def split: bind_splits)

lemma matrix_dims_update:
  "matrix_dims r c m \<Longrightarrow> i < r \<Longrightarrow> matrix_dims r c (m[i := (m ! i)[j := x]])"
  by (auto simp: matrix_dims_def dest!: set_update_subset_insert [THEN subsetD])

lemma matrix_dims_nth: "matrix_dims r c m \<Longrightarrow> i < r \<Longrightarrow> length (m ! i) = c"
  by (simp add: matrix_dims_def)

lemma CalcNewStateProbability_Some:
  "CalcNewStateProbability t p s sy model sp = Some x \<Longrightarrow>
   x = candidate model sp t sy s p \<and> p < length (transitionProb model)"
  by (auto simp: CalcNewStateProbability_def candidate_def pathProbability_def at2_Some_iff
      split: bind_splits if_splits)

lemma CalcNewStateProbability_defined:
  assumes "t = 0 \<or> (t - 1 < length sp \<and> p < length (sp ! (t - 1)))"
    "p < length (transitionProb model)" "s < length (transitionProb model ! p)"
    "s < length (stateSymbolProb model)" "sy < length (stateSymbolProb model ! s)"
  shows "CalcNewStateProbability t p s sy model sp = Some (candidate model sp t sy s p)"
  using assms
  by (auto simp: CalcNewStateProbability_def candidate_def pathProbability_def at2_def at_vec_def)

lemma FindBestLoop_Some:
  "FindBestLoop t s sy model sp xs best = Some r \<Longrightarrow>
   r = fold (best_step (candidate model sp t sy s)) xs best \<and>
   (\<forall>p\<in>set xs. p < length (transitionProb model))"
proof (induction xs arbitrary: best)
  case Nil
  then show ?case by simp
next
  case (Cons p xs)
  obtain bv bs where best: "best = (bv, bs)" by (cases best)
  from Cons.prems obtain c where c: "CalcNewStateProbability t p s sy model sp = Some c"
    and rest: "FindBestLoop t s sy model sp xs (if c > bv then (c, p) else (bv, bs)) = Some r"
    by (auto simp: best split: bind_splits)
  from CalcNewStateProbability_Some [OF c] Cons.IH [OF rest] show ?case
    by (simp add: best best_step_def)
qed

lemma FindBestLoop_defined:
  "\<forall>p\<in>set xs. CalcNewStateProbability t p s sy model sp = Some (candidate model sp t sy s p) \<Longrightarrow>
   FindBestLoop t s sy model sp xs best =
     Some (fold (best_step (candidate model sp t sy s)) xs best)"
proof (induction xs arbitrary: best)
  case Nil
  then show ?case by simp
next
  case (Cons p xs)
  obtain bv bs where best: "best = (bv, bs)" by (cases best)
  from Cons show ?case
    by (simp add: best best_step_def)
qed

lemma fold_best_step:
  fixes c :: "nat \<Rightarrow> 'a::linorder"
  assumes "fold (best_step c) [0..<n] (b0, s0) = (bv, bs)"
  shows "(bv = b0 \<and> bs = s0 \<and> (\<forall>p<n. c p \<le> b0)) \<or>
         (bs < n \<and> bv = c bs \<and> b0 < bv \<and> (\<forall>p<n. c p \<le> bv) \<and> (\<forall>p<bs. c p < bv))"
  using assms
proof (induction n arbitrary: bv bs)
  case 0
  then show ?case by simp
next
  case (Suc n)
  obtain bv' bs' where prev: "fold (best_step c) [0..<n] (b0, s0) = (bv', bs')"
    by (cases "fold (best_step c) [0..<n] (b0, s0)")
  from Suc.prems have step: "(bv, bs) = best_step c n (bv', bs')"
    by (simp add: prev)
  note IH = Suc.IH [OF prev]
  show ?case
  proof (cases "c n > bv'")
    case True
    with step have eq: "bv = c n" "bs = n" by (simp_all add: best_step_def)
    have less: "\<forall>p<n. c p < c n"
      using IH True by (auto intro: le_less_trans)
    have "b0 < c n"
      using IH True by auto
    moreover have "\<forall>p<Suc n. c p \<le> c n"
      using less by (auto simp: less_Suc_eq)
    ultimately show ?thesis
      using less by (simp add: eq)
  next
    case False
    with step have eq: "bv = bv'" "bs = bs'" by (simp_all add: best_step_def)
    from False have "c n \<le> bv'" by simp
    with IH show ?thesis
      unfolding eq by (auto simp: less_Suc_eq)
  qed
qed

lemma candidate_cong:
  "t = 0 \<or> sp ! (t - 1) = sp' ! (t - 1) \<Longrightarrow> candidate model sp t = candidate model sp' t"
  by (auto simp: candidate_def pathProbability_def fun_eq_iff)

lemma best_source_cong:
  "t = 0 \<or> sp ! (t - 1) = sp' ! (t - 1) \<Longrightarrow>
   best_source model sp t = best_source model sp' t"
  using candidate_cong [of t sp sp' model]
  by (auto simp: best_source_def fun_eq_iff)

lemma FindBestTransitionSource_Some:
  fixes model :: "'a::{zero,one,times,linorder,uminus} Model"
  assumes b: "FindBestTransitionSource t s sy model sp = Some b"
    and v: "CalcNewStateProbability t b s sy model sp = Some v"
    and n: "length (transitionProb model) < 2 ^ 64"
  shows "best_source model sp t sy s v b"
proof (cases "t = 0")
  case True
  with b v show ?thesis
    by (auto simp: best_source_def FindBestTransitionSource_def
        dest: CalcNewStateProbability_Some)
next
  case False
  let ?n = "length (transitionProb model)"
  let ?c = "candidate model sp t sy s"
  from b False obtain bv where
    loop: "FindBestLoop t s sy model sp [0..<?n] (- 1, HMM_UNDEFINED_STATE) = Some (bv, b)"
    by (auto simp: FindBestTransitionSource_def Let_def split: bind_splits)
  then have fold: "fold (best_step ?c) [0..<?n] (- 1, HMM_UNDEFINED_STATE) = (bv, b)"
    using FindBestLoop_Some by metis
  from CalcNewStateProbability_Some [OF v] have vb: "v = ?c b" and bn: "b < ?n"
    by simp_all
  from bn n have "b \<noteq> HMM_UNDEFINED_STATE"
    by (simp add: HMM_UNDEFINED_STATE_def)
  with fold_best_step [OF fold] have
    "bv = ?c b \<and> (\<forall>p<?n. ?c p \<le> bv) \<and> (\<forall>p<b. ?c p < bv)"
    by auto
  with False vb bn show ?thesis
    by (auto simp: best_source_def)
qed

lemma ViterbiStates_Cons:
  assumes "ViterbiStates model data t (s # rest) (sp, ps) = Some r"
  obtains b v where
    "t < length (timeStateSymbol data)"
    "FindBestTransitionSource t s (symbolAt data t) model sp = Some b"
    "CalcNewStateProbability t b s (symbolAt data t) model sp = Some v"
    "t < length sp" "s < length (sp ! t)" "t < length ps" "s < length (ps ! t)"
    "ViterbiStates model data t rest
       (sp[t := (sp ! t)[s := v]], ps[t := (ps ! t)[s := b]]) = Some r"
  using assms
  by (auto simp: symbolAt_def at_vec_Some_iff set2_Some_iff Let_def split: bind_splits)

lemma ViterbiStates_Some:
  fixes model :: "'a::{zero,one,times,linorder,uminus} Model"
  assumes "ViterbiStates model data t xs (sp, ps) = Some (sp', ps')"
    and "distinct xs" and "length (transitionProb model) < 2 ^ 64"
  shows "length sp' = length sp \<and> length ps' = length ps \<and>
     (\<forall>i. i \<noteq> t \<longrightarrow> sp' ! i = sp ! i \<and> ps' ! i = ps ! i) \<and>
     length (sp' ! t) = length (sp ! t) \<and> length (ps' ! t) = length (ps ! t) \<and>
     (\<forall>j. j \<notin> set xs \<longrightarrow> sp' ! t ! j = sp ! t ! j \<and> ps' ! t ! j = ps ! t ! j) \<and>
     (\<forall>s\<in>set xs. best_source model sp t (symbolAt data t) s (sp' ! t ! s) (ps' ! t ! s))"
  using assms
proof (induction xs arbitrary: sp ps)
  case Nil
  then show ?case by simp
next
  case (Cons s xs)
  from Cons.prems(1) obtain b v where
    b: "FindBestTransitionSource t s (symbolAt data t) model sp = Some b"
    and v: "CalcNewStateProbability t b s (symbolAt data t) model sp = Some v"
    and len: "t < length sp" "s < length (sp ! t)" "t < length ps" "s < length (ps ! t)"
    and rest: "ViterbiStates model data t xs
       (sp[t := (sp ! t)[s := v]], ps[t := (ps ! t)[s := b]]) = Some (sp', ps')"
    by (rule ViterbiStates_Cons)
  let ?sp1 = "sp[t := (sp ! t)[s := v]]"
  let ?ps1 = "ps[t := (ps ! t)[s := b]]"
  from Cons.prems have dist: "distinct xs" and notin: "s \<notin> set xs" by simp_all
  note IH = Cons.IH [OF rest dist Cons.prems(3)]
  have src: "best_source model sp t (symbolAt data t) s v b"
    using FindBestTransitionSource_Some [OF b v Cons.prems(3)] .
  have cong: "best_source model ?sp1 t = best_source model sp t"
    by (rule best_source_cong) (cases "t = 0", simp_all)
  have here: "sp' ! t ! s = v" "ps' ! t ! s = b"
    using IH notin len by simp_all
  have "length sp' = length sp" "length ps' = length ps"
    using IH by simp_all
  moreover have "\<forall>i. i \<noteq> t \<longrightarrow> sp' ! i = sp ! i \<and> ps' ! i = ps ! i"
    using IH by simp
  moreover have "length (sp' ! t) = length (sp ! t)" "length (ps' ! t) = length (ps ! t)"
    using IH len by simp_all
  moreover have "\<forall>j. j \<notin> set (s # xs) \<longrightarrow> sp' ! t ! j = sp ! t ! j \<and> ps' ! t ! j = ps ! t ! j"
    using IH len by simp
  moreover have "\<forall>s'\<in>set (s # xs).
      best_source model sp t (symbolAt data t) s' (sp' ! t ! s') (ps' ! t ! s')"
    using IH src here unfolding cong by simp
  ultimately show ?case by blast
qed

lemma ViterbiSteps_Some:
  fixes model :: "'a::{zero,one,times,linorder,uminus} Model"
  assumes "ViterbiSteps model data n ts (sp, ps) = Some (sp', ps')"
    and "sorted_wrt (<) ts" and "length (transitionProb model) < 2 ^ 64"
  shows "length sp' = length sp \<and> length ps' = length ps \<and>
     (\<forall>i. i \<notin> set ts \<longrightarrow> sp' ! i = sp ! i \<and> ps' ! i = ps ! i) \<and>
     (\<forall>i. length (sp' ! i) = length (sp ! i) \<and> length (ps' ! i) = length (ps ! i)) \<and>
     (\<forall>t\<in>set ts. \<forall>s<n.
         best_source model sp' t (symbolAt data t) s (sp' ! t ! s) (ps' ! t ! s))"
  using assms
proof (induction ts arbitrary: sp ps)
  case Nil
  then show ?case by simp
next
  case (Cons t ts)
  from Cons.prems(1) obtain sp1 ps1 where
    inner: "ViterbiStates model data t [0..<n] (sp, ps) = Some (sp1, ps1)"
    and rest: "ViterbiSteps model data n ts (sp1, ps1) = Some (sp', ps')"
    by (auto split: bind_splits)
  from Cons.prems(2) have sorted: "sorted_wrt (<) ts" and later: "\<forall>r\<in>set ts. t < r"
    by simp_all
  note I = ViterbiStates_Some [OF inner distinct_upt Cons.prems(3)]
  note IH = Cons.IH [OF rest sorted Cons.prems(3)]
  have t_notin: "t \<notin> set ts" and t1_notin: "t - 1 \<notin> set ts"
    using later by auto
  have row_t: "sp' ! t = sp1 ! t" "ps' ! t = ps1 ! t"
    using IH t_notin by simp_all
  have row_t1: "t \<noteq> 0 \<Longrightarrow> sp' ! (t - 1) = sp ! (t - 1)"
    using IH I t1_notin by simp
  have cong: "best_source model sp' t = best_source model sp t"
    by (rule best_source_cong) (use row_t1 in blast)
  have cells: "\<forall>s<n. best_source model sp' t (symbolAt data t) s (sp' ! t ! s) (ps' ! t ! s)"
    using I unfolding cong row_t by simp
  have "length sp' = length sp" "length ps' = length ps"
    using IH I by simp_all
  moreover have "\<forall>i. i \<notin> set (t # ts) \<longrightarrow> sp' ! i = sp ! i \<and> ps' ! i = ps ! i"
    using IH I by simp
  moreover have "\<forall>i. length (sp' ! i) = length (sp ! i) \<and> length (ps' ! i) = length (ps ! i)"
  proof
    fix i
    show "length (sp' ! i) = length (sp ! i) \<and> length (ps' ! i) = length (ps ! i)"
      using IH I by (cases "i = t") simp_all
  qed
  moreover have "\<forall>t'\<in>set (t # ts). \<forall>s<n.
      best_source model sp' t' (symbolAt data t') s (sp' ! t' ! s) (ps' ! t' ! s)"
    using IH cells by simp
  ultimately show ?case by blast
qed

lemma ViterbiTables_Some:
  fixes model :: "'a::{zero,one,times,linorder,uminus} Model"
  assumes tabs: "ViterbiTables model data = Some (sp, ps)"
    and n: "length (transitionProb model) < 2 ^ 64"
  shows "matrix_dims (length (timeStateSymbol data)) (length (transitionProb model)) sp"
    and "matrix_dims (length (timeStateSymbol data)) (length (transitionProb model)) ps"
    and "\<And>t s. t < length (timeStateSymbol data) \<Longrightarrow> s < length (transitionProb model) \<Longrightarrow>
          best_source model sp t (symbolAt data t) s (sp ! t ! s) (ps ! t ! s)"
proof -
  let ?n = "length (transitionProb model)"
  let ?T = "length (timeStateSymbol data)"
  let ?sp0 = "replicate ?T (replicate ?n (0::'a))"
  let ?ps0 = "replicate ?T (replicate ?n HMM_UNDEFINED_STATE)"
  from tabs have "ViterbiSteps model data ?n [0..<?T] (?sp0, ?ps0) = Some (sp, ps)"
    by (simp add: ViterbiTables_def Let_def)
  note S = ViterbiSteps_Some [OF this sorted_wrt_upt n]
  have len: "length sp = ?T" "length ps = ?T"
    using S by simp_all
  have rows: "i < ?T \<Longrightarrow> length (sp ! i) = ?n \<and> length (ps ! i) = ?n" for i
    using S by simp
  show "matrix_dims ?T ?n sp"
    using len rows by (auto simp: matrix_dims_def in_set_conv_nth)
  show "matrix_dims ?T ?n ps"
    using len rows by (auto simp: matrix_dims_def in_set_conv_nth)
  show "best_source model sp t (symbolAt data t) s (sp ! t ! s) (ps ! t ! s)"
    if "t < ?T" "s < ?n" for t s
    using S that by simp
qed

lemma unit_matrix_nth:
  assumes "unit_matrix m" "i < length m" "j < length (m ! i)"
  shows "0 \<le> m ! i ! j \<and> m ! i ! j \<le> 1"
proof -
  have "m ! i \<in> set m" "m ! i ! j \<in> set (m ! i)"
    using assms by simp_all
  with assms(1) show ?thesis
    unfolding unit_matrix_def by blast
qed

lemma unit_matrix_update:
  assumes m: "unit_matrix m" and x: "0 \<le> x \<and> x \<le> 1"
  shows "unit_matrix (m[i := (m ! i)[j := x]])"
  unfolding unit_matrix_def
proof (intro ballI)
  fix row y
  assume row: "row \<in> set (m[i := (m ! i)[j := x]])" and y: "y \<in> set row"
  from row have "row = (m ! i)[j := x] \<and> i < length m \<or> row \<in> set m"
    using set_update_subset_insert [of m i "(m ! i)[j := x]"]
    by (cases "i < length m") (auto simp: list_update_beyond)
  then show "0 \<le> y \<and> y \<le> 1"
  proof
    assume r: "row = (m ! i)[j := x] \<and> i < length m"
    with y have "y = x \<or> y \<in> set (m ! i)"
      using set_update_subset_insert [of "m ! i" j x] by auto
    moreover have "m ! i \<in> set m"
      using r by simp
    ultimately show ?thesis
      using m x unfolding unit_matrix_def by blast
  next
    assume "row \<in> set m"
    with m y show ?thesis
      unfolding unit_matrix_def by blast
  qed
qed

lemma valid_data_symbolAt:
  "valid_data model data \<Longrightarrow> t < length (timeStateSymbol data) \<Longrightarrow>
   symbolAt data t < alphabetSize model"
  by (simp add: valid_data_def symbolAt_def)

lemma unit_interval_closedD:
  fixes x y :: "'a::{zero,one,times,linorder,uminus}"
  assumes "unit_interval_closed ((*) :: 'a \<Rightarrow> 'a \<Rightarrow> 'a)"
  shows "(- 1 :: 'a) < 0" and "(0 :: 'a) \<le> 1"
    and "0 \<le> x \<and> x \<le> 1 \<Longrightarrow> 0 \<le> y \<and> y \<le> 1 \<Longrightarrow> 0 \<le> x * y \<and> x * y \<le> 1"
  using assms unfolding unit_interval_closed_def by blast+

lemma candidate_unit:
  fixes model :: "'a::{zero,one,times,linorder,uminus} Model"
  assumes closed: "unit_interval_closed ((*) :: 'a \<Rightarrow> 'a \<Rightarrow> 'a)"
    and "valid_model model" "unit_matrix sp"
    "matrix_dims T (length (transitionProb model)) sp" "t < T"
    "p < length (transitionProb model)" "s < length (transitionProb model)"
    "sy < alphabetSize model"
  shows "0 \<le> candidate model sp t sy s p \<and> candidate model sp t sy s p \<le> 1"
proof -
  let ?n = "length (transitionProb model)"
  have path: "0 \<le> pathProbability sp t p \<and> pathProbability sp t p \<le> 1"
  proof (cases "t = 0")
    case True
    then show ?thesis
      using unit_interval_closedD(2) [OF closed] by (simp add: pathProbability_def)
  next
    case False
    have "t - 1 < length sp" "length (sp ! (t - 1)) = ?n"
      using assms(4,5) by (simp_all add: matrix_dims_def)
    then have "0 \<le> sp ! (t - 1) ! p \<and> sp ! (t - 1) ! p \<le> 1"
      using assms(3,6) by (intro unit_matrix_nth) simp_all
    with False show ?thesis by (simp add: pathProbability_def)
  qed
  have tr: "0 \<le> transitionProb model ! p ! s \<and> transitionProb model ! p ! s \<le> 1"
    using assms(2,6,7) by (intro unit_matrix_nth) (simp_all add: valid_model_def matrix_dims_def)
  have em: "0 \<le> stateSymbolProb model ! s ! sy \<and> stateSymbolProb model ! s ! sy \<le> 1"
    using assms(2,7,8) by (intro unit_matrix_nth) (simp_all add: valid_model_def matrix_dims_def)
  have "0 \<le> pathProbability sp t p * transitionProb model ! p ! s \<and>
        pathProbability sp t p * transitionProb model ! p ! s \<le> 1"
    by (rule unit_interval_closedD(3) [OF closed path tr])
  from unit_interval_closedD(3) [OF closed this em] show ?thesis
    by (simp add: candidate_def)
qed

lemma CalcNewStateProbability_valid:
  fixes model :: "'a::{zero,one,times,linorder,uminus} Model"
  assumes "valid_model model" "matrix_dims T (length (transitionProb model)) sp" "t < T"
    "p < length (transitionProb model)" "s < length (transitionProb model)"
    "sy < alphabetSize model"
  shows "CalcNewStateProbability t p s sy model sp = Some (candidate model sp t sy s p)"
  using assms
  by (intro CalcNewStateProbability_defined) (auto simp: valid_model_def matrix_dims_def)

lemma FindBestTransitionSource_valid:
  fixes model :: "'a::{zero,one,times,linorder,uminus} Model"
  assumes closed: "unit_interval_closed ((*) :: 'a \<Rightarrow> 'a \<Rightarrow> 'a)"
    and valid: "valid_model model" and nn: "unit_matrix sp"
    and dims: "matrix_dims T (length (transitionProb model)) sp" and t: "t < T"
    and s: "s < length (transitionProb model)" and sy: "sy < alphabetSize model"
  shows "\<exists>b<length (transitionProb model). FindBestTransitionSource t s sy model sp = Some b"
proof (cases "t = 0")
  case True
  with s show ?thesis by (auto simp: FindBestTransitionSource_def)
next
  case False
  let ?n = "length (transitionProb model)"
  let ?c = "candidate model sp t sy s"
  have "\<forall>p\<in>set [0..<?n]. CalcNewStateProbability t p s sy model sp = Some (?c p)"
    using CalcNewStateProbability_valid [OF valid dims t _ s sy] by simp
  then have loop: "FindBestLoop t s sy model sp [0..<?n] (- 1, HMM_UNDEFINED_STATE) =
      Some (fold (best_step ?c) [0..<?n] (- 1, HMM_UNDEFINED_STATE))"
    by (rule FindBestLoop_defined)
  obtain bv b where fold: "fold (best_step ?c) [0..<?n] (- 1, HMM_UNDEFINED_STATE) = (bv, b)"
    by (cases "fold (best_step ?c) [0..<?n] (- 1, HMM_UNDEFINED_STATE)")
  have pos: "0 < ?n"
    by (rule le_less_trans [OF le0 s])
  have "0 \<le> ?c 0"
    using candidate_unit [OF closed valid nn dims t pos s sy] by blast
  with unit_interval_closedD(1) [OF closed] have "- 1 < ?c 0"
    by (rule less_le_trans)
  then have "\<not> ?c 0 \<le> - 1"
    by simp
  with pos have "\<not> (\<forall>p<?n. ?c p \<le> - 1)"
    by blast
  with fold_best_step [OF fold] have "b < ?n" by blast
  with loop fold False show ?thesis
    by (simp add: FindBestTransitionSource_def Let_def)
qed

lemma ViterbiStates_valid:
  fixes model :: "'a::{zero,one,times,linorder,uminus} Model"
  assumes closed: "unit_interval_closed ((*) :: 'a \<Rightarrow> 'a \<Rightarrow> 'a)"
    and valid: "valid_model model" and data: "valid_data model data"
    and t: "t < length (timeStateSymbol data)"
    and "matrix_dims (length (timeStateSymbol data)) (length (transitionProb model)) sp"
    and "matrix_dims (length (timeStateSymbol data)) (length (transitionProb model)) ps"
    and "unit_matrix sp"
    and "\<forall>s\<in>set xs. s < length (transitionProb model)"
  shows "\<exists>sp' ps'. ViterbiStates model data t xs (sp, ps) = Some (sp', ps') \<and>
     matrix_dims (length (timeStateSymbol data)) (length (transitionProb model)) sp' \<and>
     matrix_dims (length (timeStateSymbol data)) (length (transitionProb model)) ps' \<and>
     unit_matrix sp'"
  using assms(5-)
proof (induction xs arbitrary: sp ps)
  case Nil
  then show ?case by simp
next
  case (Cons s xs)
  let ?n = "length (transitionProb model)"
  let ?T = "length (timeStateSymbol data)"
  let ?sy = "symbolAt data t"
  from Cons.prems have s: "s < ?n" and xs: "\<forall>s\<in>set xs. s < ?n" by simp_all
  have sy: "?sy < alphabetSize model"
    using valid_data_symbolAt [OF data t] .
  obtain b where b: "b < ?n"
    and fb: "FindBestTransitionSource t s ?sy model sp = Some b"
    using FindBestTransitionSource_valid
      [OF closed valid Cons.prems(3) Cons.prems(1) t s sy] by blast
  let ?v = "candidate model sp t ?sy s b"
  have calc: "CalcNewStateProbability t b s ?sy model sp = Some ?v"
    using CalcNewStateProbability_valid [OF valid Cons.prems(1) t b s sy] .
  have v: "0 \<le> ?v \<and> ?v \<le> 1"
    using candidate_unit [OF closed valid Cons.prems(3) Cons.prems(1) t b s sy] .
  let ?sp1 = "sp[t := (sp ! t)[s := ?v]]"
  let ?ps1 = "ps[t := (ps ! t)[s := b]]"
  have rows: "t < length sp" "s < length (sp ! t)" "t < length ps" "s < length (ps ! t)"
    using Cons.prems(1,2) t s by (auto simp: matrix_dims_def)
  have step: "ViterbiStates model data t (s # xs) (sp, ps) =
      ViterbiStates model data t xs (?sp1, ?ps1)"
    using t fb calc rows
    by (simp add: at_vec_def set2_def symbolAt_def Let_def)
  have "\<exists>sp' ps'. ViterbiStates model data t xs (?sp1, ?ps1) = Some (sp', ps') \<and>
     matrix_dims ?T ?n sp' \<and> matrix_dims ?T ?n ps' \<and> unit_matrix sp'"
    using Cons.prems t v xs
    by (intro Cons.IH matrix_dims_update unit_matrix_update)
  then show ?case
    unfolding step .
qed

lemma ViterbiSteps_valid:
  fixes model :: "'a::{zero,one,times,linorder,uminus} Model"
  assumes closed: "unit_interval_closed ((*) :: 'a \<Rightarrow> 'a \<Rightarrow> 'a)"
    and valid: "valid_model model" and data: "valid_data model data"
    and "matrix_dims (length (timeStateSymbol data)) (length (transitionProb model)) sp"
    and "matrix_dims (length (timeStateSymbol data)) (length (transitionProb model)) ps"
    and "unit_matrix sp"
    and "\<forall>t\<in>set ts. t < length (timeStateSymbol data)"
  shows "\<exists>sp' ps'.
     ViterbiSteps model data (length (transitionProb model)) ts (sp, ps) = Some (sp', ps')"
  using assms(4-)
proof (induction ts arbitrary: sp ps)
  case Nil
  then show ?case by simp
next
  case (Cons t ts)
  let ?n = "length (transitionProb model)"
  let ?T = "length (timeStateSymbol data)"
  from Cons.prems have t: "t < ?T" and ts: "\<forall>t\<in>set ts. t < ?T" by simp_all
  obtain sp1 ps1 where inner: "ViterbiStates model data t [0..<?n] (sp, ps) = Some (sp1, ps1)"
    and dims: "matrix_dims ?T ?n sp1" "matrix_dims ?T ?n ps1" and nn: "unit_matrix sp1"
    using ViterbiStates_valid [OF closed valid data t Cons.prems(1,2,3), of "[0..<?n]"] by auto
  from Cons.IH [OF dims nn ts] inner show ?case
    by simp
qed

lemma ViterbiTables_valid:
  fixes model :: "'a::{zero,one,times,linorder,uminus} Model"
  assumes closed: "unit_interval_closed ((*) :: 'a \<Rightarrow> 'a \<Rightarrow> 'a)"
    and valid: "valid_model model" "valid_data model data"
  shows "\<exists>sp ps. ViterbiTables model data = Some (sp, ps)"
proof -
  have "unit_matrix (replicate (length (timeStateSymbol data))
          (replicate (length (transitionProb model)) (0::'a)))"
    using unit_interval_closedD(2) [OF closed] by (auto simp: unit_matrix_def)
  then show ?thesis
    unfolding ViterbiTables_def Let_def
    by (intro ViterbiSteps_valid [OF closed valid]) (auto simp: matrix_dims_def)
qed

lemma max_element_scan_first_greatest:
  fixes ys :: "'a::linorder list"
  assumes "ys = pre @ xs" "length pre = i" "pos < i" "largest = ys ! pos"
    "\<forall>j<i. ys ! j \<le> largest" "\<forall>j<pos. ys ! j < largest"
  shows "max_element_scan xs i largest pos < length ys \<and>
     (\<forall>j<length ys. ys ! j \<le> ys ! max_element_scan xs i largest pos) \<and>
     (\<forall>j<max_element_scan xs i largest pos. ys ! j < ys ! max_element_scan xs i largest pos)"
  using assms
proof (induction xs arbitrary: pre i largest pos)
  case Nil
  then show ?case by simp
next
  case (Cons x xs)
  have x: "ys ! i = x"
    using Cons.prems(1,2) by (simp add: nth_append)
  show ?case
  proof (cases "largest < x")
    case True
    have "max_element_scan xs (Suc i) x i < length ys \<and>
       (\<forall>j<length ys. ys ! j \<le> ys ! max_element_scan xs (Suc i) x i) \<and>
       (\<forall>j<max_element_scan xs (Suc i) x i. ys ! j < ys ! max_element_scan xs (Suc i) x i)"
    proof (rule Cons.IH [where pre = "pre @ [x]"])
      show "ys = (pre @ [x]) @ xs" using Cons.prems(1) by simp
      show "length (pre @ [x]) = Suc i" using Cons.prems(2) by simp
      show "i < Suc i" by simp
      show "x = ys ! i" using x by simp
      show "\<forall>j<Suc i. ys ! j \<le> x"
        using Cons.prems(5) True x by (auto simp: less_Suc_eq intro: less_imp_le order_trans)
      show "\<forall>j<i. ys ! j < x"
        using Cons.prems(5) True by (auto intro: le_less_trans)
    qed
    with True show ?thesis by simp
  next
    case False
    have "max_element_scan xs (Suc i) largest pos < length ys \<and>
       (\<forall>j<length ys. ys ! j \<le> ys ! max_element_scan xs (Suc i) largest pos) \<and>
       (\<forall>j<max_element_scan xs (Suc i) largest pos.
           ys ! j < ys ! max_element_scan xs (Suc i) largest pos)"
    proof (rule Cons.IH [where pre = "pre @ [x]"])
      show "ys = (pre @ [x]) @ xs" using Cons.prems(1) by simp
      show "length (pre @ [x]) = Suc i" using Cons.prems(2) by simp
      show "pos < Suc i" using Cons.prems(3) by simp
      show "largest = ys ! pos" using Cons.prems(4) .
      show "\<forall>j<Suc i. ys ! j \<le> largest"
        using Cons.prems(5) False x by (auto simp: less_Suc_eq)
      show "\<forall>j<pos. ys ! j < largest" using Cons.prems(6) .
    qed
    with False show ?thesis by simp
  qed
qed

lemma max_element_index_first_greatest:
  fixes v :: "'a::linorder list"
  assumes "v \<noteq> []"
  shows "max_element_index v < length v"
    and "\<forall>j<length v. v ! j \<le> v ! max_element_index v"
    and "\<forall>j<max_element_index v. v ! j < v ! max_element_index v"
proof -
  from assms obtain x xs where v: "v = x # xs" by (cases v) auto
  have "max_element_scan xs 1 x 0 < length v \<and>
     (\<forall>j<length v. v ! j \<le> v ! max_element_scan xs 1 x 0) \<and>
     (\<forall>j<max_element_scan xs 1 x 0. v ! j < v ! max_element_scan xs 1 x 0)"
    by (rule max_element_scan_first_greatest [where pre = "[x]"]) (simp_all add: v)
  then show "max_element_index v < length v"
    and "\<forall>j<length v. v ! j \<le> v ! max_element_index v"
    and "\<forall>j<max_element_index v. v ! j < v ! max_element_index v"
    by (simp_all add: max_element_index_def v)
qed




lemma FindMostProbableStateSequence_unfold:
  "FindMostProbableStateSequence model data =
     do { (sp, ps) \<leftarrow> ViterbiTables model data;
          lastRow \<leftarrow> (if length (timeStateSymbol data) = 0 then None
                      else at_vec sp (length (timeStateSymbol data) - 1));
          (cs', acc) \<leftarrow>
            RecoverLoop ps (rev [1..<length (timeStateSymbol data)])
              (max_element_index lastRow, []);
          Some (rev (acc @ [cs'])) }"
proof -
  have "nat (int (length (timeStateSymbol data)) - 1) = length (timeStateSymbol data) - 1"
    by simp
  moreover have "int (length (timeStateSymbol data)) - 1 < 0 \<longleftrightarrow>
      length (timeStateSymbol data) = 0"
    by auto
  ultimately show ?thesis
    unfolding FindMostProbableStateSequence_def Let_def by presburger
qed



lemma real_unit_interval_closed: "unit_interval_closed ((*) :: real \<Rightarrow> real \<Rightarrow> real)"
  by (simp add: unit_interval_closed_def mult_le_one)

lemma chain_valid: "valid_model chain_model" "valid_data chain_model chain_data"
  by (simp_all add: valid_model_def valid_data_def chain_model_def chain_data_def
      matrix_dims_def unit_matrix_def)

lemmas decoder_simps =
  ViterbiTables_def FindBestTransitionSource_def CalcNewStateProbability_def at2_def
  at_vec_def set2_def HMM_UNDEFINED_STATE_def FindMostProbableStateSequence_def
  max_element_index_def upt_rec

lemma chain_tables:
  "ViterbiTables chain_model chain_data =
     Some ([[0, 9 / 10, 0, 0], [0, 9 / 200, 9 / 25, 0]], [[0, 0, 0, 0], [0, 1, 1, 0]])"
  by (simp add: decoder_simps chain_model_def chain_data_def)

lemma chain_path: "FindMostProbableStateSequence chain_model chain_data = Some [1, 1]"
  by (simp add: decoder_simps chain_model_def chain_data_def)

lemma chain_sizes:
  "length (transitionProb chain_model) = 4" "length (timeStateSymbol chain_data) = 2"
  by (simp_all add: chain_model_def chain_data_def)

lemma single_tables:
  "ViterbiTables chain_model single_data = Some ([[0, 9 / 10, 0, 0]], [[0, 0, 0, 0]])"
  by (simp add: decoder_simps chain_model_def single_data_def)

lemma symbol_lookup_cong:
  assumes "map (snd \<circ> snd) (timeStateSymbol d1) = map (snd \<circ> snd) (timeStateSymbol d2)"
  shows "at_vec (timeStateSymbol d1) t \<bind> (\<lambda>tss. f (snd (snd tss))) =
         at_vec (timeStateSymbol d2) t \<bind> (\<lambda>tss. f (snd (snd tss)))"
proof -
  have len: "length (timeStateSymbol d1) = length (timeStateSymbol d2)"
    using assms by (rule map_eq_imp_length_eq)
  show ?thesis
  proof (cases "t < length (timeStateSymbol d1)")
    case True
    then have "map (snd \<circ> snd) (timeStateSymbol d1) ! t = snd (snd (timeStateSymbol d1 ! t))"
      "map (snd \<circ> snd) (timeStateSymbol d2) ! t = snd (snd (timeStateSymbol d2 ! t))"
      using len by simp_all
    with assms have "snd (snd (timeStateSymbol d1 ! t)) = snd (snd (timeStateSymbol d2 ! t))"
      by simp
    with True len show ?thesis
      by (simp add: at_vec_def)
  next
    case False
    with len show ?thesis
      by (simp add: at_vec_def)
  qed
qed

lemma ViterbiStates_symbols_only:
  assumes "map (snd \<circ> snd) (timeStateSymbol d1) = map (snd \<circ> snd) (timeStateSymbol d2)"
  shows "ViterbiStates model d1 t xs tables = ViterbiStates model d2 t xs tables"
proof (induction xs arbitrary: tables)
  case Nil
  show ?case by simp
next
  case (Cons s xs)
  obtain sp ps where tables: "tables = (sp, ps)" by (cases tables)
  show ?case
    unfolding tables ViterbiStates.simps Let_def Cons.IH
    by (rule symbol_lookup_cong [OF assms])
qed

lemma ViterbiSteps_symbols_only:
  assumes "map (snd \<circ> snd) (timeStateSymbol d1) = map (snd \<circ> snd) (timeStateSymbol d2)"
  shows "ViterbiSteps model d1 n ts tables = ViterbiSteps model d2 n ts tables"
proof (induction ts arbitrary: tables)
  case Nil
  show ?case by simp
next
  case (Cons t ts)
  have "ViterbiSteps model d1 n ts = ViterbiSteps model d2 n ts"
    by (rule ext) (rule Cons.IH)
  then show ?case
    by (simp add: ViterbiStates_symbols_only [OF assms])
qed

lemma RecoverLoop_pushes:
  assumes "RecoverLoop ps steps (cs, acc) = Some (cs', acc')"
  shows "\<exists>ext. acc' = acc @ ext \<and> length ext = length steps \<and>
           (steps \<noteq> [] \<longrightarrow> last ext = cs' \<and> hd ext = ps ! hd steps ! cs)"
  using assms
proof (induction steps arbitrary: cs acc)
  case Nil
  then show ?case by simp
next
  case (Cons t steps)
  from Cons.prems obtain c where c: "at2 ps t cs = Some c"
    and rest: "RecoverLoop ps steps (c, acc @ [c]) = Some (cs', acc')"
    by (auto split: bind_splits)
  from c have ceq: "c = ps ! t ! cs" by (simp add: at2_Some_iff)
  from Cons.IH [OF rest] obtain ext where ext: "acc' = (acc @ [c]) @ ext"
    "length ext = length steps" "steps \<noteq> [] \<longrightarrow> last ext = cs'"
    by blast
  have "steps = [] \<Longrightarrow> cs' = c"
    using rest by simp
  with ext ceq have "acc' = acc @ (c # ext) \<and> length (c # ext) = length (t # steps) \<and>
      last (c # ext) = cs' \<and> hd (c # ext) = ps ! hd (t # steps) ! cs"
    by (cases steps) auto
  then show ?case by blast
qed

section \<open>Properties of the readers\<close>

text \<open>
  Claim C4.  The claim lets \<open>ReadModel\<close> fail with a domain error only for a transition
  from the END state, a transition to the START state or an emission of START or END.
  The state list \<open>START\<close>, \<open>A\<close>, \<open>END\<close> with the single transition \<open>START \<rightarrow> B\<close> names
  neither START as a target nor END as a source, and the same list with the single
  emission of \<open>B\<close> names neither START nor END; \<open>ReadModel\<close> fails on both with a
  domain error, because \<^verbatim>\<open>stateNameToIndex[name]\<close> gives the unknown name \<open>B\<close> the
  index \<open>0\<close> of START.
\<close>

theorem ReadModel_unknown_name_domain_error:
  "src_stateNames typo_source = [''START'', ''A'', ''END''] \<and>
   src_transitions typo_source = [(''START'', ''B'', 1)] \<and>
   src_emissions typo_source = [(''A'', ''a'', 9 / 10)] \<and>
   ReadModel fresh_model typo_source =
     Inl (domain_error ''Transition to the starting state is forbidden'') \<and>
   src_stateNames typo_emission_source = [''START'', ''A'', ''END''] \<and>
   src_transitions typo_emission_source = [(''START'', ''A'', 1)] \<and>
   src_emissions typo_emission_source = [(''B'', ''a'', 9 / 10)] \<and>
   ReadModel fresh_model typo_emission_source =
     Inl (domain_error
       ''Symbol emission from the beginning or the ending states is forbidden'')"
  by (simp add: ReadModel_def fresh_model_def typo_source_def typo_emission_source_def
      set2_def at_vec_def index_or_insert_def)

text \<open>
  What \<open>ReadModel\<close> does with the indices that the registry yields, where a name that
  is not in the state list has index \<open>0\<close> (\<open>declared_index\<close>).  On a fresh \<open>Model\<close> and a
  state list that fits a \<^verbatim>\<open>size_t\<close>: if every emission symbol lies in the alphabet (so
  that no write leaves the emission table), \<open>ReadModel\<close> fails with a domain error
  exactly when some transition triple starts at index \<open>nstates - 1\<close> or ends at index
  \<open>0\<close>, or some emission triple has index \<open>0\<close> or \<open>nstates - 1\<close>.  And a transition that
  starts at the last declared state always makes \<open>ReadModel\<close> fail with a domain
  error, whatever the emissions are.
\<close>

theorem ReadModel_domain_error_iff:
  fixes this :: "'a::zero Model"
  assumes fresh: "stateNameToIndex this = Map.empty"
    and n: "length (src_stateNames src) < 2 ^ 64"
  shows "((\<forall>(s, c, p)\<in>set (src_emissions src).
             char_to_size_t (symbolToInd c) < src_alphabetSize src) \<longrightarrow>
          ((\<exists>msg. ReadModel this src = Inl (domain_error msg)) \<longleftrightarrow>
           (\<exists>(f, t, p)\<in>set (src_transitions src).
               declared_index (src_stateNames src) f + 1 = length (src_stateNames src) \<or>
               declared_index (src_stateNames src) t = 0) \<or>
           (\<exists>(s, c, p)\<in>set (src_emissions src).
               declared_index (src_stateNames src) s = 0 \<or>
               declared_index (src_stateNames src) s + 1 = length (src_stateNames src)))) \<and>
         (src_stateNames src \<noteq> [] \<and>
          (\<exists>t p. (last (src_stateNames src), t, p) \<in> set (src_transitions src)) \<longrightarrow>
          (\<exists>msg. ReadModel this src = Inl (domain_error msg)))"
proof (intro conjI impI)
  let ?names = "src_stateNames src"
  let ?n = "length ?names"
  let ?m3 = "this\<lparr>stateNameToIndex := ReadStates 0 ?names Map.empty,
                alphabetSize := src_alphabetSize src,
                transitionProb := replicate ?n (replicate ?n 0)\<rparr>"
  note cases = ReadModel_cases [OF fresh n]
  have T: "(\<exists>(f, t, p)\<in>set (src_transitions src).
               declared_index ?names f + 1 = ?n \<or> declared_index ?names t = 0) \<longleftrightarrow>
           (\<exists>tr\<in>set (src_transitions src). bad_transition (declared_index ?names) ?n tr)"
    by (simp add: bad_transition_def case_prod_beta)
  have E: "(\<exists>(s, c, p)\<in>set (src_emissions src).
               declared_index ?names s = 0 \<or> declared_index ?names s + 1 = ?n) \<longleftrightarrow>
           (\<exists>em\<in>set (src_emissions src). bad_emission (declared_index ?names) ?n em)"
    by (simp add: bad_emission_def case_prod_beta)
  {
    assume syms: "\<forall>(s, c, p)\<in>set (src_emissions src).
             char_to_size_t (symbolToInd c) < src_alphabetSize src"
    show "(\<exists>msg. ReadModel this src = Inl (domain_error msg)) \<longleftrightarrow>
           (\<exists>(f, t, p)\<in>set (src_transitions src).
               declared_index ?names f + 1 = ?n \<or> declared_index ?names t = 0) \<or>
           (\<exists>(s, c, p)\<in>set (src_emissions src).
               declared_index ?names s = 0 \<or> declared_index ?names s + 1 = ?n)"
      unfolding T E
    proof (cases "ReadTransitions ?n (src_transitions src) ?m3")
      case (Inl e)
      with cases show "(\<exists>msg. ReadModel this src = Inl (domain_error msg)) \<longleftrightarrow>
           (\<exists>tr\<in>set (src_transitions src). bad_transition (declared_index ?names) ?n tr) \<or>
           (\<exists>em\<in>set (src_emissions src). bad_emission (declared_index ?names) ?n em)"
        by auto
    next
      case (Inr m4)
      let ?m5 = "m4\<lparr>stateSymbolProb := replicate ?n (replicate (src_alphabetSize src) 0)\<rparr>"
      from cases Inr have
        ok: "\<forall>tr\<in>set (src_transitions src). \<not> bad_transition (declared_index ?names) ?n tr"
        and below: "registry_below ?n (stateNameToIndex m4)"
        and idx: "state_index (stateNameToIndex m4) = declared_index ?names"
        and res: "ReadModel this src = ReadEmissions ?n (src_emissions src) ?m5"
        by simp_all
      have "case ReadEmissions ?n (src_emissions src) ?m5 of
           Inl e \<Rightarrow> (\<exists>msg. e = domain_error msg) \<and>
                    (\<exists>em\<in>set (src_emissions src). bad_emission (state_index (stateNameToIndex ?m5)) ?n em)
         | Inr m' \<Rightarrow> (\<forall>em\<in>set (src_emissions src). \<not> bad_emission (state_index (stateNameToIndex ?m5)) ?n em)"
        using below n syms
        by (intro ReadEmissions_cases [where a = "src_alphabetSize src"])
           (auto simp: matrix_dims_replicate)
      then have "(\<exists>msg. ReadModel this src = Inl (domain_error msg)) \<longleftrightarrow>
         (\<exists>em\<in>set (src_emissions src). bad_emission (declared_index ?names) ?n em)"
        unfolding res using idx by (auto split: sum.splits)
      with ok show "(\<exists>msg. ReadModel this src = Inl (domain_error msg)) \<longleftrightarrow>
           (\<exists>tr\<in>set (src_transitions src). bad_transition (declared_index ?names) ?n tr) \<or>
           (\<exists>em\<in>set (src_emissions src). bad_emission (declared_index ?names) ?n em)"
        by blast
    qed
  }
  {
    assume "?names \<noteq> [] \<and> (\<exists>t p. (last ?names, t, p) \<in> set (src_transitions src))"
    then obtain t p where ne: "?names \<noteq> []"
      and mem: "(last ?names, t, p) \<in> set (src_transitions src)"
      by blast
    have "bad_transition (declared_index ?names) ?n (last ?names, t, p)"
      using declared_index_last [OF ne] by (simp add: bad_transition_def)
    with mem cases show "\<exists>msg. ReadModel this src = Inl (domain_error msg)"
      by (auto split: sum.splits)
  }
qed

theorem ReadModel_domain_error_iff_witness:
  "stateNameToIndex fresh_model = Map.empty \<and>
   length (src_stateNames end_source) < 2 ^ 64 \<and>
   (last (src_stateNames end_source), ''A'', 1) \<in> set (src_transitions end_source) \<and>
   (\<exists>msg. ReadModel fresh_model end_source = Inl (domain_error msg))"
  using ReadModel_domain_error_iff [of fresh_model end_source]
  by (simp add: fresh_model_def end_source_def sym_simps declared_index_def state_index_def)

text \<open>
  Claim C10.  \<open>ReadModel\<close> never fails with the look-up error \<open>out_of_range\<close>.  A
  transition whose target name is not in the state list, and whose source is not the
  last state, is reported as the domain error for a transition to the starting state.
  When \<open>ReadModel\<close> succeeds, a transition source that is not in the state list is in
  the registry with index \<open>0\<close>.
\<close>

theorem ReadModel_undeclared_name:
  fixes this :: "'a::zero Model"
  shows "ReadModel this src \<noteq> Inl out_of_range \<and>
    (stateNameToIndex this = Map.empty \<and> length (src_stateNames src) < 2 ^ 64 \<and>
     src_transitions src = (f, t, p) # rest \<and> t \<notin> set (src_stateNames src) \<and>
     declared_index (src_stateNames src) f + 1 \<noteq> length (src_stateNames src) \<longrightarrow>
     ReadModel this src =
       Inl (domain_error ''Transition to the starting state is forbidden'')) \<and>
    (stateNameToIndex this = Map.empty \<and> ReadModel this src = Inr m \<and>
     (f', t', p') \<in> set (src_transitions src) \<and> f' \<notin> set (src_stateNames src) \<longrightarrow>
     stateNameToIndex m f' = Some 0)"
proof (intro conjI impI)
  let ?names = "src_stateNames src"
  let ?n = "length ?names"
  let ?m3 = "this\<lparr>stateNameToIndex := ReadStates 0 ?names Map.empty,
                alphabetSize := src_alphabetSize src,
                transitionProb := replicate ?n (replicate ?n 0)\<rparr>"
  show "ReadModel this src \<noteq> Inl out_of_range"
    by (rule ReadModel_not_out_of_range)
  {
    assume a: "stateNameToIndex this = Map.empty \<and> ?n < 2 ^ 64 \<and>
     src_transitions src = (f, t, p) # rest \<and> t \<notin> set ?names \<and>
     declared_index ?names f + 1 \<noteq> ?n"
    then have t0: "state_index (ReadStates 0 ?names Map.empty) t = 0"
      using declared_index_undeclared [of t ?names] by (simp add: declared_index_def)
    have f0: "state_index (ReadStates 0 ?names Map.empty) f < ?n \<or>
              state_index (ReadStates 0 ?names Map.empty) f = 0"
      using registry_below_ReadStates [of ?names]
      by (auto simp: registry_below_def state_index_def split: option.splits)
    have "(state_index (ReadStates 0 ?names Map.empty) f + 1) mod 2 ^ 64 \<noteq> ?n"
    proof -
      have "state_index (ReadStates 0 ?names Map.empty) f + 1 < 2 ^ 64"
        using f0 a by auto
      then show ?thesis
        using a by (simp add: declared_index_def)
    qed
    then have "ReadTransitions ?n ((f, t, p) # rest) ?m3 =
       Inl (domain_error ''Transition to the starting state is forbidden'')"
      unfolding ReadTransitions_Cons using t0 by (simp add: Let_def)
    moreover have "src_transitions src = (f, t, p) # rest" "stateNameToIndex this = Map.empty"
      using a by blast+
    ultimately show "ReadModel this src =
       Inl (domain_error ''Transition to the starting state is forbidden'')"
      unfolding ReadModel_def Let_def by (simp del: ReadTransitions.simps)
  }
  {
    assume a: "stateNameToIndex this = Map.empty \<and> ReadModel this src = Inr m \<and>
     (f', t', p') \<in> set (src_transitions src) \<and> f' \<notin> set ?names"
    then obtain m4 where m4: "ReadTransitions ?n (src_transitions src) ?m3 = Inr m4"
      and em: "ReadEmissions ?n (src_emissions src)
               (m4\<lparr>stateSymbolProb := replicate ?n (replicate (alphabetSize m4) 0)\<rparr>) = Inr m"
      by (auto simp: ReadModel_def Let_def split: sum.splits)
    have "stateNameToIndex m4 f' = Some (state_index (stateNameToIndex ?m3) f')"
      using ReadTransitions_registry [OF m4] a by force
    also have "state_index (stateNameToIndex ?m3) f' = 0"
      using a declared_index_undeclared [of f' ?names] by (simp add: declared_index_def)
    finally show "stateNameToIndex m f' = Some 0"
      using ReadEmissions_registry [OF em] by simp
  }
qed

lemma alias_eval: "\<exists>m. ReadModel fresh_model alias_source = Inr m"
  by (simp add: ReadModel_def fresh_model_def alias_source_def set2_def at_vec_def index_or_insert_def sym_simps)

theorem ReadModel_undeclared_name_witness:
  "ReadModel fresh_model typo_source =
     Inl (domain_error ''Transition to the starting state is forbidden'') \<and>
   (\<exists>m. ReadModel fresh_model alias_source = Inr m \<and> stateNameToIndex m ''BEGIN'' = Some 0)"
proof -
  have a: "ReadModel fresh_model typo_source =
     Inl (domain_error ''Transition to the starting state is forbidden'')"
    using ReadModel_undeclared_name [where this = fresh_model and src = typo_source
          and f = "''START''" and t = "''B''" and p = 1 and rest = "[]"]
    by (simp add: fresh_model_def typo_source_def declared_index_def state_index_def)
  obtain m where m: "ReadModel fresh_model alias_source = Inr m"
    using alias_eval by blast
  have "stateNameToIndex m ''BEGIN'' = Some 0"
    using ReadModel_undeclared_name [where this = fresh_model and src = alias_source
          and m = m and f' = "''BEGIN''" and t' = "''A''" and p' = 1] m
    by (simp add: fresh_model_def alias_source_def)
  with a m show ?thesis by blast
qed

text \<open>
  Claim C7.  \<open>ReadExperimentData\<close> fails with \<open>out_of_range\<close> exactly when some
  observation names a state that is not in the model's registry, and it fails in no
  other way; \<open>out_of_range\<close> differs from every \<open>domain_error\<close>, and \<open>ReadModel\<close> never
  fails with \<open>out_of_range\<close>, so the error tells the two readers apart.
\<close>

theorem ReadExperimentData_lookup_error:
  "(ReadExperimentData model src this = Inl out_of_range \<longleftrightarrow>
      (\<exists>(stepNumber, stateName, symbol)\<in>set src. stateName \<notin> dom (stateNameToIndex model))) \<and>
   (\<forall>e. ReadExperimentData model src this = Inl e \<longrightarrow> e = out_of_range) \<and>
   (\<forall>msg. out_of_range \<noteq> domain_error msg) \<and>
   (\<forall>(m::'b::zero Model) s. ReadModel m s \<noteq> Inl out_of_range)"
proof -
  have "(\<exists>(stepNumber, stateName, symbol)\<in>set src. stateName \<notin> dom (stateNameToIndex model))
     \<longleftrightarrow> (\<exists>obs\<in>set src. stateNameToIndex model (fst (snd obs)) = None)"
    by (simp add: case_prod_beta domIff)
  then show ?thesis
    using ReadExperimentData_fails_iff [of model src this]
      ReadExperimentData_error_kind [of model src this]
    by (auto simp: ReadModel_not_out_of_range)
qed

theorem ReadExperimentData_lookup_error_witness:
  "ReadExperimentData chain_model [(0, ''A'', ''a''), (1, ''C'', ''b'')] no_data =
     Inl out_of_range"
  using ReadExperimentData_lookup_error
    [of chain_model "[(0, ''A'', ''a''), (1, ''C'', ''b'')]" no_data]
  by (simp add: chain_model_def)

section \<open>Properties of the decoder\<close>

text \<open>
  Claim C1.  Whenever the dynamic programme has filled its tables, then for every step
  \<open>t\<close> with \<open>1 \<le> t < maxtime\<close> and every state \<open>s\<close>: \<open>sequenceProbability[t][s]\<close> is the
  greatest of the scores \<open>sequenceProbability[t-1][p] * transitionProb[p][s] *
  stateSymbolProb[s][symbolAt t]\<close> over the states \<open>p\<close>, and \<open>prevSeqState[t][s]\<close> is the
  least \<open>p\<close> whose score is that greatest one.  The scores are the products as the
  carrier computes them, associated as the code does; no law of the product is used.
  And the tables are filled, without leaving them, for tables of probabilities and
  symbols in the alphabet, when products of numbers between \<open>0\<close> and \<open>1\<close> stay there.
\<close>

theorem viterbi_recurrence:
  fixes model :: "'a::{zero,one,times,linorder,uminus} Model"
  shows "(unit_interval_closed ((*) :: 'a \<Rightarrow> 'a \<Rightarrow> 'a) \<and>
          valid_model model \<and> valid_data model data \<longrightarrow>
            (\<exists>tables. ViterbiTables model data = Some tables)) \<and>
         (ViterbiTables model data = Some (sp, ps) \<and> length (transitionProb model) < 2 ^ 64 \<and>
          1 \<le> t \<and> t < length (timeStateSymbol data) \<and> s < length (transitionProb model) \<longrightarrow>
            sp ! t ! s =
              Max ((\<lambda>p. sp ! (t - 1) ! p * transitionProb model ! p ! s *
                         stateSymbolProb model ! s ! symbolAt data t) `
                   {..<length (transitionProb model)}) \<and>
            ps ! t ! s =
              (LEAST p. p < length (transitionProb model) \<and>
                        sp ! (t - 1) ! p * transitionProb model ! p ! s *
                        stateSymbolProb model ! s ! symbolAt data t = sp ! t ! s))"
proof -
  let ?n = "length (transitionProb model)"
  let ?c = "\<lambda>p. sp ! (t - 1) ! p * transitionProb model ! p ! s *
                 stateSymbolProb model ! s ! symbolAt data t"
  have defined: "unit_interval_closed ((*) :: 'a \<Rightarrow> 'a \<Rightarrow> 'a) \<and>
      valid_model model \<and> valid_data model data \<longrightarrow>
      (\<exists>tables. ViterbiTables model data = Some tables)"
    using ViterbiTables_valid [of model data] by blast
  have rec: "ViterbiTables model data = Some (sp, ps) \<and> ?n < 2 ^ 64 \<and>
          1 \<le> t \<and> t < length (timeStateSymbol data) \<and> s < ?n \<longrightarrow>
            sp ! t ! s = Max (?c ` {..<?n}) \<and>
            ps ! t ! s = (LEAST p. p < ?n \<and> ?c p = sp ! t ! s)"
  proof (rule impI)
    assume a: "ViterbiTables model data = Some (sp, ps) \<and> ?n < 2 ^ 64 \<and>
          1 \<le> t \<and> t < length (timeStateSymbol data) \<and> s < ?n"
    then have tabs: "ViterbiTables model data = Some (sp, ps)" and n: "?n < 2 ^ 64"
      and t: "t \<noteq> 0" "t < length (timeStateSymbol data)" and s: "s < ?n"
      by simp_all
    have cand: "candidate model sp t (symbolAt data t) s = ?c"
      using t(1) by (simp add: candidate_def pathProbability_def fun_eq_iff)
    have "best_source model sp t (symbolAt data t) s (sp ! t ! s) (ps ! t ! s)"
      by (rule ViterbiTables_Some(3) [OF tabs n t(2) s])
    note B = this [unfolded best_source_def cand if_not_P [OF t(1)]]
    have b: "ps ! t ! s < ?n" and v: "sp ! t ! s = ?c (ps ! t ! s)"
      and ge: "\<forall>p<?n. ?c p \<le> sp ! t ! s" and less: "\<forall>p<ps ! t ! s. ?c p < sp ! t ! s"
      using B by blast+
    have "Max (?c ` {..<?n}) = sp ! t ! s"
    proof (rule Max_eqI)
      show "finite (?c ` {..<?n})" by simp
      show "y \<le> sp ! t ! s" if "y \<in> ?c ` {..<?n}" for y
        using that ge by auto
      show "sp ! t ! s \<in> ?c ` {..<?n}"
        using b v by blast
    qed
    moreover have "(LEAST p. p < ?n \<and> ?c p = sp ! t ! s) = ps ! t ! s"
    proof (rule Least_equality)
      show "ps ! t ! s < ?n \<and> ?c (ps ! t ! s) = sp ! t ! s"
        using b v by simp
      show "ps ! t ! s \<le> p" if "p < ?n \<and> ?c p = sp ! t ! s" for p
      proof (rule ccontr)
        assume "\<not> ps ! t ! s \<le> p"
        then have "?c p < sp ! t ! s" using less by simp
        with that show False by simp
      qed
    qed
    ultimately show "sp ! t ! s = Max (?c ` {..<?n}) \<and>
            ps ! t ! s = (LEAST p. p < ?n \<and> ?c p = sp ! t ! s)"
      by simp
  qed
  from defined rec show ?thesis
    by (rule conjI)
qed

theorem viterbi_recurrence_witness:
  "(\<exists>tables. ViterbiTables chain_model chain_data = Some tables) \<and>
   (9 / 25 :: real) =
     Max ((\<lambda>p. [[0, 9 / 10, 0, 0], [0, 9 / 200, 9 / 25, 0]] ! (1 - 1) ! p *
               transitionProb chain_model ! p ! 2 *
               stateSymbolProb chain_model ! 2 ! symbolAt chain_data 1) `
          {..<length (transitionProb chain_model)}) \<and>
   (1 :: nat) =
     (LEAST p. p < length (transitionProb chain_model) \<and>
         [[0, 9 / 10, 0, 0], [0, 9 / 200, 9 / 25, 0]] ! (1 - 1) ! p *
         transitionProb chain_model ! p ! 2 *
         stateSymbolProb chain_model ! 2 ! symbolAt chain_data 1 = 9 / 25)"
proof -
  have side: "length (transitionProb chain_model) < 2 ^ 64" "(1::nat) \<le> 1"
    "1 < length (timeStateSymbol chain_data)" "2 < length (transitionProb chain_model)"
    by (simp_all add: chain_sizes)
  note inst = viterbi_recurrence [of chain_model chain_data
      "[[0, 9 / 10, 0, 0], [0, 9 / 200, 9 / 25, 0]]" "[[0, 0, 0, 0], [0, 1, 1, 0]]" 1 2]
  from inst real_unit_interval_closed chain_valid
  have "\<exists>tables. ViterbiTables chain_model chain_data = Some tables"
    by blast
  moreover from inst chain_tables side have
    "[[0, 9 / 10, 0, 0], [0, 9 / 200, 9 / 25, 0]] ! 1 ! 2 =
     Max ((\<lambda>p. [[0, 9 / 10, 0, 0], [0, 9 / 200, 9 / 25, 0]] ! (1 - 1) ! p *
               transitionProb chain_model ! p ! 2 *
               stateSymbolProb chain_model ! 2 ! symbolAt chain_data 1) `
          {..<length (transitionProb chain_model)}) \<and>
     [[0, 0, 0, 0], [0, 1, 1, 0]] ! 1 ! 2 =
     (LEAST p. p < length (transitionProb chain_model) \<and>
         [[0, 9 / 10, 0, 0], [0, 9 / 200, 9 / 25, 0]] ! (1 - 1) ! p *
         transitionProb chain_model ! p ! 2 *
         stateSymbolProb chain_model ! 2 ! symbolAt chain_data 1 =
         [[0, 9 / 10, 0, 0], [0, 9 / 200, 9 / 25, 0]] ! 1 ! 2)"
    by blast
  moreover have "[[0, 9 / 10, 0, 0], [0, 9 / 200, 9 / 25, 0 :: real]] ! 1 ! 2 = 9 / 25"
    "[[0, 0, 0, 0], [0, 1, 1, 0 :: nat]] ! 1 ! 2 = 1"
    by simp_all
  ultimately show ?thesis
    by (simp only:)
qed

text \<open>
  Claim C5.  Whenever the tables are filled: at step \<open>0\<close> every state \<open>s\<close> has
  \<open>sequenceProbability[0][s] = 1 * transitionProb[0][s] * stateSymbolProb[s][symbolAt 0]\<close>
  (the product as the carrier computes it) and \<open>prevSeqState[0][s] = 0\<close>; for a single
  observation the decoder returns the one-element sequence of the first state that
  maximises that score; and where \<open>1 * x = x\<close>, as for doubles, that is the first state
  that maximises \<open>transitionProb[0][s] * stateSymbolProb[s][symbol]\<close>.  The tables are
  filled for tables of probabilities and symbols in the alphabet, when products of
  numbers between \<open>0\<close> and \<open>1\<close> stay there.
\<close>

theorem first_step_from_START:
  fixes model :: "'a::{zero,one,times,linorder,uminus} Model"
  shows "(unit_interval_closed ((*) :: 'a \<Rightarrow> 'a \<Rightarrow> 'a) \<and>
          valid_model model \<and> valid_data model data \<longrightarrow>
            (\<exists>tables. ViterbiTables model data = Some tables)) \<and>
         (ViterbiTables model data = Some (sp, ps) \<and> length (transitionProb model) < 2 ^ 64 \<and>
          0 < length (timeStateSymbol data) \<and> s < length (transitionProb model) \<longrightarrow>
            sp ! 0 ! s = 1 * transitionProb model ! 0 ! s *
                         stateSymbolProb model ! s ! symbolAt data 0 \<and>
            ps ! 0 ! s = 0) \<and>
         (ViterbiTables model data = Some (sp, ps) \<and> length (transitionProb model) < 2 ^ 64 \<and>
          length (timeStateSymbol data) = 1 \<and> 0 < length (transitionProb model) \<longrightarrow>
            (\<exists>best<length (transitionProb model).
               FindMostProbableStateSequence model data = Some [best] \<and>
               (\<forall>s'<length (transitionProb model).
                  1 * transitionProb model ! 0 ! s' *
                  stateSymbolProb model ! s' ! symbolAt data 0
                  \<le> 1 * transitionProb model ! 0 ! best *
                     stateSymbolProb model ! best ! symbolAt data 0) \<and>
               (\<forall>s'<best.
                  1 * transitionProb model ! 0 ! s' *
                  stateSymbolProb model ! s' ! symbolAt data 0
                  < 1 * transitionProb model ! 0 ! best *
                    stateSymbolProb model ! best ! symbolAt data 0))) \<and>
         (ViterbiTables model data = Some (sp, ps) \<and> length (transitionProb model) < 2 ^ 64 \<and>
          length (timeStateSymbol data) = 1 \<and> 0 < length (transitionProb model) \<and>
          (\<forall>x :: 'a. 1 * x = x) \<longrightarrow>
            (\<exists>best<length (transitionProb model).
               FindMostProbableStateSequence model data = Some [best] \<and>
               (\<forall>s'<length (transitionProb model).
                  transitionProb model ! 0 ! s' * stateSymbolProb model ! s' ! symbolAt data 0
                  \<le> transitionProb model ! 0 ! best *
                     stateSymbolProb model ! best ! symbolAt data 0) \<and>
               (\<forall>s'<best.
                  transitionProb model ! 0 ! s' * stateSymbolProb model ! s' ! symbolAt data 0
                  < transitionProb model ! 0 ! best *
                    stateSymbolProb model ! best ! symbolAt data 0)))"
proof -
  let ?n = "length (transitionProb model)"
  let ?tabs = "ViterbiTables model data = Some (sp, ps) \<and> ?n < 2 ^ 64"
  let ?score = "\<lambda>s. 1 * transitionProb model ! 0 ! s *
                     stateSymbolProb model ! s ! symbolAt data 0"
  let ?plain = "\<lambda>s. transitionProb model ! 0 ! s * stateSymbolProb model ! s ! symbolAt data 0"
  have defined: "unit_interval_closed ((*) :: 'a \<Rightarrow> 'a \<Rightarrow> 'a) \<and>
      valid_model model \<and> valid_data model data \<longrightarrow>
      (\<exists>tables. ViterbiTables model data = Some tables)"
    using ViterbiTables_valid [of model data] by blast
  have cell: "sp ! 0 ! s = ?score s \<and> ps ! 0 ! s = 0"
    if "?tabs" "0 < length (timeStateSymbol data)" "s < ?n" for s
  proof -
    from that(1) have tabs: "ViterbiTables model data = Some (sp, ps)" and n: "?n < 2 ^ 64"
      by simp_all
    from ViterbiTables_Some(3) [OF tabs n that(2,3)] show ?thesis
      by (simp add: best_source_def candidate_def pathProbability_def)
  qed
  have first: "?tabs \<and> 0 < length (timeStateSymbol data) \<and> s < ?n \<longrightarrow>
      sp ! 0 ! s = ?score s \<and> ps ! 0 ! s = 0"
    using cell by blast
  have single_gen: "\<exists>best<?n. FindMostProbableStateSequence model data = Some [best] \<and>
               (\<forall>s'<?n. ?score s' \<le> ?score best) \<and> (\<forall>s'<best. ?score s' < ?score best)"
    if a: "?tabs \<and> length (timeStateSymbol data) = 1 \<and> 0 < ?n"
  proof -
    from a have tabs: "ViterbiTables model data = Some (sp, ps)" and n: "?n < 2 ^ 64"
      and T: "length (timeStateSymbol data) = 1" and pos: "0 < ?n" by simp_all
    have dims: "matrix_dims 1 ?n sp"
      using ViterbiTables_Some(1) [OF tabs n] by (simp add: T)
    then have len: "length sp = 1" "length (sp ! 0) = ?n"
      by (simp_all add: matrix_dims_def)
    let ?best = "max_element_index (sp ! 0)"
    have ne: "sp ! 0 \<noteq> []"
      using len pos by auto
    note M = max_element_index_first_greatest [OF ne]
    have best: "?best < ?n"
      using M(1) by (simp add: len)
    have row: "sp ! 0 ! s' = ?score s'" if "s' < ?n" for s'
      using cell [of s'] that T a by simp
    have path: "FindMostProbableStateSequence model data = Some [?best]"
      unfolding FindMostProbableStateSequence_unfold
      using len(1) by (auto simp: tabs T at_vec_def)
    have ge: "\<forall>s'<?n. ?score s' \<le> ?score ?best"
      using M(2) row best by (simp add: len)
    have less: "\<forall>s'<?best. ?score s' < ?score ?best"
      using M(3) row best by simp
    from best path ge less show ?thesis
      by blast
  qed
  have single: "?tabs \<and> length (timeStateSymbol data) = 1 \<and> 0 < ?n \<longrightarrow>
      (\<exists>best<?n. FindMostProbableStateSequence model data = Some [best] \<and>
               (\<forall>s'<?n. ?score s' \<le> ?score best) \<and> (\<forall>s'<best. ?score s' < ?score best))"
    using single_gen by blast
  have plain: "?tabs \<and> length (timeStateSymbol data) = 1 \<and> 0 < ?n \<and>
      (\<forall>x :: 'a. 1 * x = x) \<longrightarrow>
      (\<exists>best<?n. FindMostProbableStateSequence model data = Some [best] \<and>
               (\<forall>s'<?n. ?plain s' \<le> ?plain best) \<and> (\<forall>s'<best. ?plain s' < ?plain best))"
  proof (rule impI)
    assume a: "?tabs \<and> length (timeStateSymbol data) = 1 \<and> 0 < ?n \<and>
      (\<forall>x :: 'a. 1 * x = x)"
    then have law: "1 * x = x" for x :: 'a
      by simp
    from a have "?tabs \<and> length (timeStateSymbol data) = 1 \<and> 0 < ?n"
      by simp
    from single_gen [OF this] show "\<exists>best<?n.
        FindMostProbableStateSequence model data = Some [best] \<and>
        (\<forall>s'<?n. ?plain s' \<le> ?plain best) \<and> (\<forall>s'<best. ?plain s' < ?plain best)"
      unfolding law .
  qed
  from defined first single plain show ?thesis
    by (simp only: conj_assoc simp_thms)
qed

theorem first_step_from_START_witness:
  "ViterbiTables chain_model chain_data =
     Some ([[0, 9 / 10, 0, 0], [0, 9 / 200, 9 / 25, 0]], [[0, 0, 0, 0], [0, 1, 1, 0]]) \<and>
   [[0, 9 / 10, 0, 0], [0, 9 / 200, 9 / 25, 0]] ! 0 ! 1 =
     1 * transitionProb chain_model ! 0 ! 1 *
     stateSymbolProb chain_model ! 1 ! symbolAt chain_data 0 \<and>
   length (timeStateSymbol single_data) = 1 \<and>
   (\<exists>tables. ViterbiTables chain_model single_data = Some tables) \<and>
   (\<exists>best<length (transitionProb chain_model).
      FindMostProbableStateSequence chain_model single_data = Some [best])"
proof -
  have n: "length (transitionProb chain_model) < 2 ^ 64" "0 < length (transitionProb chain_model)"
    "1 < length (transitionProb chain_model)"
    by (simp_all add: chain_sizes)
  have T: "0 < length (timeStateSymbol chain_data)" "length (timeStateSymbol single_data) = 1"
    by (simp_all add: chain_sizes single_data_def)
  have law: "\<forall>x :: real. 1 * x = x"
    by simp
  have single_valid: "valid_data chain_model single_data"
    by (simp add: valid_data_def chain_model_def single_data_def)
  note chain = first_step_from_START [of chain_model chain_data
      "[[0, 9 / 10, 0, 0], [0, 9 / 200, 9 / 25, 0]]" "[[0, 0, 0, 0], [0, 1, 1, 0]]" 1]
  note single = first_step_from_START [of chain_model single_data
      "[[0, 9 / 10, 0, 0]]" "[[0, 0, 0, 0]]"]
  from chain chain_tables n(1,3) T(1)
  have "[[0, 9 / 10, 0, 0], [0, 9 / 200, 9 / 25, 0]] ! 0 ! 1 =
     1 * transitionProb chain_model ! 0 ! 1 *
     stateSymbolProb chain_model ! 1 ! symbolAt chain_data 0"
    by blast
  moreover from single real_unit_interval_closed chain_valid(1) single_valid
  have "\<exists>tables. ViterbiTables chain_model single_data = Some tables"
    by blast
  moreover from single single_tables n(1,2) T(2) law
  have "\<exists>best<length (transitionProb chain_model).
      FindMostProbableStateSequence chain_model single_data = Some [best]"
    by blast
  ultimately show ?thesis
    using chain_tables T(2) by blast
qed






text \<open>
  Claim C6.  The decoder is a function of the model and of the symbols of the
  observations: two data sets whose observations carry the same symbols, step by step,
  give the same result for the same model, whatever their step numbers and reference
  states are.
\<close>

theorem decoder_reads_symbols_only:
  fixes model :: "'a::{zero,one,times,linorder,uminus} Model"
  assumes "map (snd \<circ> snd) (timeStateSymbol d1) = map (snd \<circ> snd) (timeStateSymbol d2)"
  shows "FindMostProbableStateSequence model d1 = FindMostProbableStateSequence model d2"
proof -
  have len: "length (timeStateSymbol d1) = length (timeStateSymbol d2)"
    using assms by (rule map_eq_imp_length_eq)
  have "ViterbiTables model d1 = ViterbiTables model d2"
    by (simp add: ViterbiTables_def len ViterbiSteps_symbols_only [OF assms])
  then show ?thesis
    by (simp add: FindMostProbableStateSequence_def len)
qed

theorem decoder_reads_symbols_only_witness:
  "timeStateSymbol chain_data \<noteq> timeStateSymbol relabelled_data \<and>
   FindMostProbableStateSequence chain_model chain_data =
   FindMostProbableStateSequence chain_model relabelled_data"
proof -
  have "map (snd \<circ> snd) (timeStateSymbol chain_data) =
        map (snd \<circ> snd) (timeStateSymbol relabelled_data)"
    by (simp add: chain_data_def relabelled_data_def)
  from decoder_reads_symbols_only [OF this, of chain_model] show ?thesis
    by (simp add: chain_data_def relabelled_data_def)
qed

section \<open>Path recovery\<close>

text \<open>
  Claim C2.  The claim makes the last element of the result the state that maximises
  the last row of \<open>sequenceProbability\<close>.  For the example model and the observations
  \<open>a\<close>, \<open>b\<close> that state is \<open>2\<close> (state \<open>B\<close>), and the result is \<open>[1, 1]\<close>: the loop
  replaces \<open>curState\<close> by its predecessor before it pushes it.
\<close>

theorem FindMostProbableStateSequence_omits_final_state:
  "ViterbiTables chain_model chain_data =
     Some ([[0, 9 / 10, 0, 0], [0, 9 / 200, 9 / 25, 0]], [[0, 0, 0, 0], [0, 1, 1, 0]]) \<and>
   max_element_index [0, 9 / 200, 9 / 25, 0 :: real] = 2 \<and>
   FindMostProbableStateSequence chain_model chain_data = Some [1, 1]"
  using chain_tables chain_path by (simp add: max_element_index_def)

text \<open>
  The same for every input with at least two observations: when a sequence is
  returned, its first two elements are equal, and its last element is the back-pointer
  of the state that maximises the last row, not that state.
\<close>

theorem recovered_path_repeats_first_state:
  fixes model :: "'a::{zero,one,times,linorder,uminus} Model"
  assumes path: "FindMostProbableStateSequence model data = Some path"
    and T: "2 \<le> length (timeStateSymbol data)"
  shows "path ! 0 = path ! 1 \<and>
         (\<exists>sp ps. ViterbiTables model data = Some (sp, ps) \<and>
            last path = ps ! (length (timeStateSymbol data) - 1) !
                          max_element_index (sp ! (length (timeStateSymbol data) - 1)))"
proof -
  let ?T = "length (timeStateSymbol data)"
  from path obtain sp ps cs' acc' where
    tabs: "ViterbiTables model data = Some (sp, ps)"
    and rec: "RecoverLoop ps (rev [1..<?T]) (max_element_index (sp ! (?T - 1)), []) =
              Some (cs', acc')"
    and res: "path = rev (acc' @ [cs'])"
    unfolding FindMostProbableStateSequence_unfold
    by (auto simp: at_vec_Some_iff split: bind_splits if_splits)
  have "?T = Suc (Suc (?T - 2))"
    using T by simp
  then obtain k where k: "?T = Suc (Suc k)" ..
  have steps: "rev [1..<?T] \<noteq> []" "hd (rev [1..<?T]) = ?T - 1"
    unfolding k by simp_all
  from RecoverLoop_pushes [OF rec] steps obtain ext where
    ext: "acc' = ext" "length ext = length (rev [1..<?T])" "last ext = cs'"
      "hd ext = ps ! (?T - 1) ! max_element_index (sp ! (?T - 1))"
    by auto
  have ne: "ext \<noteq> []"
    using ext(2) steps(1) by auto
  have "path = cs' # rev ext"
    using res ext(1) by simp
  moreover have "rev ext ! 0 = last ext"
    using ne by (simp add: rev_nth last_conv_nth)
  moreover have "last (cs' # rev ext) = hd ext"
    using ne by (simp add: last_rev)
  ultimately have "path ! 0 = path ! 1" "last path = hd ext"
    using ext(3) by simp_all
  with tabs ext(4) show ?thesis
    by simp
qed

theorem recovered_path_repeats_first_state_witness:
  "FindMostProbableStateSequence chain_model chain_data = Some [1, 1] \<and>
   [1, 1 :: nat] ! 0 = [1, 1] ! 1"
  using recovered_path_repeats_first_state [OF chain_path] chain_path
  by (simp add: chain_sizes)

section \<open>The forward-backward stub\<close>

text \<open>
  Claim C8.  The claim asks for an explicit not-implemented failure.  The function
  has no statement at all: for the example model and data, as for every input, the
  call has no defined result and raises nothing.
\<close>

theorem CalcForwardBackwardProbabiliies_undefined:
  "CalcForwardBackwardProbabiliies chain_model chain_data = Inl undefined_behaviour"
  by (simp add: CalcForwardBackwardProbabiliies_def)

end
